theory Spec2Isabelle
  imports Main
begin

section \<open>JavaScript values and the runtime\<close>

text \<open>
  The library is TypeScript running on Node. The values it reads out of provider
  responses are untyped, so they are modelled as JavaScript values. Strings are
  sequences of code units below 256 (HTTP header values and the ASCII protocol fields);
  a number inside a value is an integer (the code only tests such a number for
  truthiness and compares it with zero; what it computes with is a \<open>jsnum\<close>, below).
  A \<open>JObject\<close> lists its own properties, each key once, as \<open>JSON.parse\<close> builds them.
\<close>

datatype jsval =
    JUndefined
  | JNull
  | JBool bool
  | JNumber int
  | JString string
  | JArray "jsval list"
  | JObject "(string \<times> jsval) list"

text \<open>
  A number as the arithmetic of the code sees it: an IEEE 754 double. The numbers the
  code computes with are the poll interval and the expiry, which start as integer
  constants or as results of \<open>Number.parseInt\<close> and are multiplied by 1000 and by 2. Such a
  number is an integer that a double represents, an infinity or \<open>NaN\<close>; \<open>Num n\<close> stands for a
  double only when \<open>n\<close> is one. The two zeros are one value here: the code never divides
  by a number and \<open>===\<close> does not tell them apart.
\<close>

datatype jsnum = Num int | PosInfinity | NegInfinity | NaN

text \<open>The number of binary digits of a positive integer.\<close>

function bit_length :: "int \<Rightarrow> nat" where
  "bit_length n = (if n \<le> 0 then 0 else Suc (bit_length (n div 2)))"
  by pat_completeness auto
termination
  by (relation "measure nat") auto

declare bit_length.simps [simp del]

text \<open>
  The double nearest to an integer, ties to the even significand (53 binary digits);
  from \<open>2 ^ 1024\<close> on, after rounding, it is an infinity.
\<close>

definition to_double :: "int \<Rightarrow> jsnum" where
  "to_double n =
     (let m = \<bar>n\<bar>;
          k = bit_length m - 53;
          q = m div 2 ^ k;
          r = m mod 2 ^ k;
          q' = (if 2 ^ k < 2 * r \<or> (2 * r = 2 ^ k \<and> odd q) then q + 1 else q);
          v = q' * 2 ^ k
      in if 2 ^ 1024 \<le> v then (if n < 0 then NegInfinity else PosInfinity)
         else Num (if n < 0 then - v else v))"

text \<open>\<open>x * y\<close>: the exact product, rounded.\<close>

fun jsnum_times :: "jsnum \<Rightarrow> jsnum \<Rightarrow> jsnum" where
  "jsnum_times (Num m) (Num n) = to_double (m * n)"
| "jsnum_times NaN y = NaN"
| "jsnum_times x NaN = NaN"
| "jsnum_times (Num m) PosInfinity = (if m = 0 then NaN else if 0 < m then PosInfinity else NegInfinity)"
| "jsnum_times (Num m) NegInfinity = (if m = 0 then NaN else if 0 < m then NegInfinity else PosInfinity)"
| "jsnum_times PosInfinity (Num n) = (if n = 0 then NaN else if 0 < n then PosInfinity else NegInfinity)"
| "jsnum_times NegInfinity (Num n) = (if n = 0 then NaN else if 0 < n then NegInfinity else PosInfinity)"
| "jsnum_times PosInfinity PosInfinity = PosInfinity"
| "jsnum_times PosInfinity NegInfinity = NegInfinity"
| "jsnum_times NegInfinity PosInfinity = NegInfinity"
| "jsnum_times NegInfinity NegInfinity = PosInfinity"

text \<open>\<open>x <= y\<close> on numbers: false when either is \<open>NaN\<close>.\<close>

fun jsnum_le :: "jsnum \<Rightarrow> jsnum \<Rightarrow> bool" where
  "jsnum_le (Num m) (Num n) = (m \<le> n)"
| "jsnum_le NaN y = False"
| "jsnum_le x NaN = False"
| "jsnum_le NegInfinity y = True"
| "jsnum_le x PosInfinity = True"
| "jsnum_le x NegInfinity = False"
| "jsnum_le PosInfinity y = False"

text \<open>
  What a rejected promise or a \<open>throw\<close> carries. \<open>StatusCodeError status body response\<close>
  is the rejection of the HTTP client for a response outside 2xx: its \<open>statusCode\<close>, its
  \<open>error\<close> property (the response body) and its \<open>response\<close> property. \<open>RequestError\<close> is
  the client's rejection when no response arrived (it has neither a \<open>statusCode\<close> nor a
  \<open>response\<close>). \<open>Error msg\<close> is \<open>new Error(msg)\<close> thrown by the library itself.
\<close>

datatype js_error =
    StatusCodeError nat string jsval
  | RequestError
  | SyntaxError
  | TypeError
  | Error string

datatype 'a http_result = Resolved 'a | Rejected js_error

text \<open>
  The built-ins of the runtime that the library calls and that are not part of its
  source are parameters: \<open>JSON.parse\<close> (\<open>None\<close> when it throws \<open>SyntaxError\<close>),
  \<open>Number.parseInt\<close>, the coercions to string and to number of a value that is not
  already one, base64 encoding, and the three strings the default user agent is built
  from (\<open>os.type()\<close>, \<open>os.release()\<close>, \<open>process.versions.node\<close>).
\<close>

record js_runtime =
  JSON_parse :: "string \<Rightarrow> jsval option"
  Number_parseInt :: "jsval \<Rightarrow> jsnum"
  ToString :: "jsval \<Rightarrow> string"
  ToNumber :: "jsval \<Rightarrow> jsnum"
  base64 :: "string \<Rightarrow> string"
  os_type :: string
  os_release :: string
  node_version :: string

fun truthy :: "jsval \<Rightarrow> bool" where
  "truthy JUndefined = False"
| "truthy JNull = False"
| "truthy (JBool b) = b"
| "truthy (JNumber n) = (n \<noteq> 0)"
| "truthy (JString s) = (s \<noteq> [])"
| "truthy (JArray xs) = True"
| "truthy (JObject kvs) = True"

text \<open>
  \<open>v.k\<close> for the property names the library reads. None of them is an inherited
  member, so only own properties count, and \<open>length\<close> of an array or a string.
  Reading a property of \<open>undefined\<close> or \<open>null\<close> throws \<open>TypeError\<close>.
\<close>

fun get_prop :: "jsval \<Rightarrow> string \<Rightarrow> js_error + jsval" where
  "get_prop JUndefined k = Inl TypeError"
| "get_prop JNull k = Inl TypeError"
| "get_prop (JObject kvs) k = Inr (case map_of kvs k of None \<Rightarrow> JUndefined | Some v \<Rightarrow> v)"
| "get_prop (JArray xs) k = Inr (if k = ''length'' then JNumber (int (length xs)) else JUndefined)"
| "get_prop (JString s) k = Inr (if k = ''length'' then JNumber (int (length s)) else JUndefined)"
| "get_prop (JBool b) k = Inr JUndefined"
| "get_prop (JNumber n) k = Inr JUndefined"

text \<open>\<open>v[0]\<close>.\<close>

fun get_index0 :: "jsval \<Rightarrow> js_error + jsval" where
  "get_index0 JUndefined = Inl TypeError"
| "get_index0 JNull = Inl TypeError"
| "get_index0 (JArray xs) = Inr (case xs of [] \<Rightarrow> JUndefined | x # _ \<Rightarrow> x)"
| "get_index0 (JString s) = Inr (case s of [] \<Rightarrow> JUndefined | c # _ \<Rightarrow> JString [c])"
| "get_index0 (JObject kvs) = Inr (case map_of kvs ''0'' of None \<Rightarrow> JUndefined | Some v \<Rightarrow> v)"
| "get_index0 (JBool b) = Inr JUndefined"
| "get_index0 (JNumber n) = Inr JUndefined"

text \<open>A value inside a template string or concatenated to a string.\<close>

definition to_string :: "js_runtime \<Rightarrow> jsval \<Rightarrow> string" where
  "to_string rt v = (case v of JString s \<Rightarrow> s | _ \<Rightarrow> ToString rt v)"

text \<open>\<open>v >= 0\<close>: false for \<open>undefined\<close> and for whatever coerces to \<open>NaN\<close>.\<close>

definition to_number :: "js_runtime \<Rightarrow> jsval \<Rightarrow> jsnum" where
  "to_number rt v =
     (case v of
        JNumber n \<Rightarrow> Num n
      | JUndefined \<Rightarrow> NaN
      | JNull \<Rightarrow> Num 0
      | JBool b \<Rightarrow> Num (if b then 1 else 0)
      | _ \<Rightarrow> ToNumber rt v)"

definition ge_zero :: "js_runtime \<Rightarrow> jsval \<Rightarrow> bool" where
  "ge_zero rt v = jsnum_le (Num 0) (to_number rt v)"

text \<open>\<open>x || d\<close> for an optional string option.\<close>

definition or_default :: "string option \<Rightarrow> string \<Rightarrow> string" where
  "or_default x d = (case x of None \<Rightarrow> d | Some s \<Rightarrow> if s = [] then d else s)"

text \<open>\<open>s.split(',')\<close>: never empty; \<open>''''.split(',')\<close> is one empty piece.\<close>

fun split_comma :: "string \<Rightarrow> string list" where
  "split_comma [] = [[]]"
| "split_comma (c # cs) =
     (if c = CHR '','' then [] # split_comma cs
      else (case split_comma cs of [] \<Rightarrow> [[c]] | p # ps \<Rightarrow> (c # p) # ps))"

text \<open>
  \<open>s.trim()\<close>: the white space and line terminators of JavaScript that are code units
  below 256 (tab, LF, VT, FF, CR, space, no-break space).
\<close>

definition is_space :: "char \<Rightarrow> bool" where
  "is_space c = ((of_char c :: nat) = 9 \<or> (of_char c :: nat) = 10 \<or> (of_char c :: nat) = 11
     \<or> (of_char c :: nat) = 12 \<or> (of_char c :: nat) = 13 \<or> (of_char c :: nat) = 32
     \<or> (of_char c :: nat) = 160)"

definition trim :: "string \<Rightarrow> string" where
  "trim s = rev (dropWhile is_space (rev (dropWhile is_space s)))"

section \<open>The authenticator\<close>

text \<open>\<open>class DeviceCodeStatus\<close>: the four status strings.\<close>

definition PENDING :: jsval where "PENDING = JString ''PENDING''"
definition BACKOFF :: jsval where "BACKOFF = JString ''BACKOFF''"
definition BADCODE :: jsval where "BADCODE = JString ''BADCODE''"
definition EXPIRED :: jsval where "EXPIRED = JString ''EXPIRED''"

record DeviceFlowDetails =
  message :: jsval
  userCode :: jsval
  verifyUrl :: jsval

record IDeviceFlowAuthenticationOptions =
  opt_authorityHost :: "string option"
  opt_clientId :: string
  opt_redirectUri :: string
  opt_userAgent :: "string option"

record IDeviceFlowTokenOptions =
  opt_grantType :: "string option"
  opt_tokenScope :: "string option"
  opt_tokenDescription :: "string option"

text \<open>The fields of \<open>class DeviceFlowAuthenticator\<close>; \<open>None\<close> is \<open>undefined\<close>.\<close>

record authenticator =
  authorityHost :: string
  clientId :: string
  redirectUri :: string
  userAgent :: string
  grantType :: string
  tokenScope :: string
  tokenDescription :: string
  tenantId :: "string option"
  resourceUri :: string
  deviceCode :: jsval
  interval :: jsnum
  expiresIn :: jsnum
  cancelFlag :: bool
  throwExceptionOnCancel :: "bool option"

definition DefaultAuthorityHost :: string where
  "DefaultAuthorityHost = ''https://management.core.windows.net/''"

definition DefaultGrantType :: string where
  "DefaultGrantType = ''device_code''"

definition empty_guid :: string where
  "empty_guid = ''00000000-0000-0000-0000-000000000000''"

definition getDefaultUserAgent :: "js_runtime \<Rightarrow> string" where
  "getDefaultUserAgent rt =
     ''vsts-device-flow-auth ('' @ os_type rt @ '' '' @ os_release rt @ ''; Node ''
       @ node_version rt @ '')''"

definition addTrailingSeparator :: "string \<Rightarrow> string \<Rightarrow> string" where
  "addTrailingSeparator path separator =
     (if (case path of [] \<Rightarrow> True | _ \<Rightarrow> [last path] \<noteq> separator) then path @ separator
      else path)"

text \<open>
  The constructor. \<open>tokenOptions\<close> is the optional third parameter: \<open>None\<close> when the
  caller leaves it out. Its properties are read without a check, so reading
  \<open>tokenOptions.grantType\<close> of \<open>undefined\<close> throws \<open>TypeError\<close>.
\<close>

definition DeviceFlowAuthenticator ::
  "js_runtime \<Rightarrow> string \<Rightarrow> IDeviceFlowAuthenticationOptions \<Rightarrow> IDeviceFlowTokenOptions option
     \<Rightarrow> js_error + authenticator" where
  "DeviceFlowAuthenticator rt resourceUri' authOptions tokenOptions =
     (if resourceUri' = [] then Inl (Error ''resourceUri must have a value'')
      else if opt_clientId authOptions = [] then
        Inl (Error ''authOptions.clientId must have a value'')
      else if opt_redirectUri authOptions = [] then
        Inl (Error ''authOptions.redirectUri must have a value'')
      else
        (case tokenOptions of
           None \<Rightarrow> Inl TypeError
         | Some topts \<Rightarrow>
             Inr \<lparr> authorityHost = or_default (opt_authorityHost authOptions) DefaultAuthorityHost,
                   clientId = opt_clientId authOptions,
                   redirectUri = opt_redirectUri authOptions,
                   userAgent = or_default (opt_userAgent authOptions) (getDefaultUserAgent rt),
                   grantType = or_default (opt_grantType topts) DefaultGrantType,
                   tokenScope = or_default (opt_tokenScope topts) [],
                   tokenDescription = or_default (opt_tokenDescription topts)
                     ''vsts-device-flow-auth Personal Access Token'',
                   tenantId = None,
                   resourceUri = addTrailingSeparator resourceUri' ''/'',
                   deviceCode = JUndefined,
                   interval = Num (5 * 1000),
                   expiresIn = Num (900 * 1000),
                   cancelFlag = False,
                   throwExceptionOnCancel = Some False \<rparr>))"

section \<open>Requests\<close>

text \<open>
  The options object handed to the HTTP client. \<open>headers\<close> is either an object of
  header fields or, where the source passes the method \<open>this.getUserAgentHeaders\<close>
  without calling it, that function: a function has no own enumerable property, so the
  client copies no header field from it.
\<close>

datatype http_method = HEAD | GET | POST

datatype headers_option = HeaderFields "(string \<times> string) list" | HeadersFunction

datatype request_body = NoBody | Form "(string \<times> string) list" | JsonBody jsval

record request_options =
  verb :: http_method
  url :: string
  headers :: headers_option
  body :: request_body

text \<open>What the flow does to the outside, in order.\<close>

datatype event = Request request_options | Sleep jsnum

definition sent_header :: "request_options \<Rightarrow> string \<Rightarrow> string option" where
  "sent_header q name =
     (case headers q of HeaderFields kvs \<Rightarrow> map_of kvs name | HeadersFunction \<Rightarrow> None)"

definition getAuthorizationHeaders :: "js_runtime \<Rightarrow> authenticator \<Rightarrow> jsval \<Rightarrow> (string \<times> string) list" where
  "getAuthorizationHeaders rt a accessToken =
     [(''Authorization'', ''Basic '' @ base64 rt (''PAT:'' @ to_string rt accessToken)),
      (''X-TFS-FedAuthRedirect'', ''Suppress''),
      (''User-Agent'', userAgent a)]"

definition getUserAgentHeaders :: "authenticator \<Rightarrow> (string \<times> string) list" where
  "getUserAgentHeaders a = [(''User-Agent'', userAgent a)]"

text \<open>The test \<open>!this.tenantId || this.tenantId === "00000000-..."\<close> (an MSA-backed account).\<close>

definition msa_backed :: "authenticator \<Rightarrow> bool" where
  "msa_backed a = (case tenantId a of None \<Rightarrow> True | Some t \<Rightarrow> t = [] \<or> t = empty_guid)"

section \<open>Tenant resolution\<close>

definition getTenantId_options :: "authenticator \<Rightarrow> request_options" where
  "getTenantId_options a =
     \<lparr> verb = HEAD, url = resourceUri a, headers = HeadersFunction, body = NoBody \<rparr>"

text \<open>\<open>x.response['x-vss-resourcetenant']\<close>.\<close>

definition read_resourcetenant :: "jsval \<Rightarrow> js_error + jsval" where
  "read_resourcetenant x =
     (case get_prop x ''response'' of
        Inl e \<Rightarrow> Inl e
      | Inr response \<Rightarrow> get_prop response ''x-vss-resourcetenant'')"

text \<open>The \<open>response\<close> property of the value a \<open>catch\<close> receives.\<close>

fun error_response :: "js_error \<Rightarrow> jsval" where
  "error_response (StatusCodeError status b response) = response"
| "error_response RequestError = JUndefined"
| "error_response SyntaxError = JUndefined"
| "error_response TypeError = JUndefined"
| "error_response (Error msg) = JUndefined"

text \<open>The \<open>for\<close> loop over the ids: the first one that is not the empty guid.\<close>

fun first_tenant :: "string list \<Rightarrow> string option" where
  "first_tenant [] = None"
| "first_tenant (id' # ids) = (if id' \<noteq> empty_guid then Some id' else first_tenant ids)"

text \<open>
  \<open>getTenantId\<close>, given what the HEAD request settled with. The \<open>try\<close> block reads
  the header from the resolved value; whatever is thrown there, and a rejection, goes
  to the \<open>catch\<close> block, which reads it from \<open>error.response\<close>.
\<close>

definition getTenantId :: "authenticator \<Rightarrow> jsval http_result \<Rightarrow> js_error + string" where
  "getTenantId a r =
     (case (case (case r of
                    Resolved body' \<Rightarrow> read_resourcetenant body'
                  | Rejected error \<Rightarrow> Inl error) of
              Inr v \<Rightarrow> Inr v
            | Inl error \<Rightarrow> get_prop (error_response error) ''x-vss-resourcetenant'') of
        Inl e \<Rightarrow> Inl e
      | Inr resourceTenant \<Rightarrow>
          if truthy resourceTenant then
            (case resourceTenant of
               JString s \<Rightarrow>
                 (case (case split_comma s of
                          [] \<Rightarrow> None
                        | [t] \<Rightarrow> Some t
                        | tenantIds \<Rightarrow> first_tenant tenantIds) of
                    None \<Rightarrow> Inl TypeError
                  | Some t \<Rightarrow> Inr (trim t))
             | _ \<Rightarrow> Inl TypeError)
          else Inl (Error (''Did not receive tenant id from '' @ resourceUri a)))"

section \<open>Device code issuance\<close>

definition devicecode_options :: "authenticator \<Rightarrow> request_options" where
  "devicecode_options a =
     \<lparr> verb = POST,
       url = (if msa_backed a then ''https://login.microsoftonline.com/live.com/oauth2/devicecode''
              else ''https://login.microsoft.com/'' @ (case tenantId a of None \<Rightarrow> [] | Some t \<Rightarrow> t)
                     @ ''/oauth2/devicecode''),
       headers = HeaderFields (getUserAgentHeaders a),
       body = Form [(''client_id'', clientId a), (''resource'', authorityHost a),
                    (''redirect_uri'', redirectUri a)] \<rparr>"

text \<open>A property of a parsed body that is known not to be \<open>null\<close>.\<close>

definition field :: "jsval \<Rightarrow> string \<Rightarrow> jsval" where
  "field json k = (case get_prop json k of Inl e \<Rightarrow> JUndefined | Inr v \<Rightarrow> v)"

text \<open>
  \<open>GetDeviceFlowDetails\<close>, given what the HEAD request and the POST settled with:
  the result, the authenticator afterwards and the requests made.
\<close>

definition GetDeviceFlowDetails ::
  "js_runtime \<Rightarrow> authenticator \<Rightarrow> jsval http_result \<Rightarrow> string http_result
     \<Rightarrow> (js_error + DeviceFlowDetails) \<times> authenticator \<times> event list" where
  "GetDeviceFlowDetails rt a r_head r_post =
     (case getTenantId a r_head of
        Inl e \<Rightarrow> (Inl e, a, [Request (getTenantId_options a)])
      | Inr t \<Rightarrow>
          (let a1 = a\<lparr>tenantId := Some t\<rparr>;
               evs = [Request (getTenantId_options a), Request (devicecode_options a1)]
           in case r_post of
                Rejected e \<Rightarrow> (Inl e, a1, evs)
              | Resolved body' \<Rightarrow>
                  (case JSON_parse rt body' of
                     None \<Rightarrow> (Inl SyntaxError, a1, evs)
                   | Some json \<Rightarrow>
                       (case get_prop json ''device_code'' of
                          Inl e \<Rightarrow> (Inl e, a1, evs)
                        | Inr device_code \<Rightarrow>
                            (Inr \<lparr> message = field json ''message'',
                                   userCode = field json ''user_code'',
                                   verifyUrl = field json ''verification_url'' \<rparr>,
                             a1\<lparr> deviceCode := device_code,
                                 interval := jsnum_times (Number_parseInt rt (field json ''interval'')) (Num 1000),
                                 expiresIn := jsnum_times (Number_parseInt rt (field json ''expires_in'')) (Num 1000) \<rparr>,
                             evs)))))"

section \<open>One poll\<close>

definition token_options :: "js_runtime \<Rightarrow> authenticator \<Rightarrow> jsval \<Rightarrow> request_options" where
  "token_options rt a deviceCode' =
     \<lparr> verb = POST,
       url = (if msa_backed a then ''https://login.microsoftonline.com/live.com/oauth2/token''
              else ''https://login.microsoft.com/'' @ (case tenantId a of None \<Rightarrow> [] | Some t \<Rightarrow> t)
                     @ ''/oauth2/token''),
       headers = HeaderFields (getUserAgentHeaders a),
       body = Form [(''client_id'', clientId a), (''code'', to_string rt deviceCode'),
                    (''grant_type'', grantType a)] \<rparr>"

text \<open>The \<open>then\<close> callback of the poll: the body of a 2xx response.\<close>

definition poll_fulfilled :: "js_runtime \<Rightarrow> string \<Rightarrow> string \<Rightarrow> js_error + jsval" where
  "poll_fulfilled rt postUrl body' =
     (case JSON_parse rt body' of
        None \<Rightarrow> Inl SyntaxError
      | Some json \<Rightarrow>
          (case get_prop json ''access_token'' of
             Inl e \<Rightarrow> Inl e
           | Inr access_token \<Rightarrow>
               if truthy access_token then Inr access_token
               else Inl (Error (''Did not receive an access token from '' @ postUrl
                                  @ ''. Body: '' @ body'))))"

text \<open>
  The \<open>catch\<close> callback of the poll. It receives the client's rejection and also
  whatever the \<open>then\<close> callback threw. Only a \<open>StatusCodeError\<close> has a \<open>statusCode\<close>.
\<close>

definition poll_rejected :: "js_runtime \<Rightarrow> js_error \<Rightarrow> js_error + jsval" where
  "poll_rejected rt err =
     (case err of
        StatusCodeError statusCode error response \<Rightarrow>
          if statusCode = 400 \<and> error \<noteq> [] then
            (case JSON_parse rt error of
               None \<Rightarrow> Inl SyntaxError
             | Some result \<Rightarrow>
                 (case get_prop result ''error'' of
                    Inl e \<Rightarrow> Inl e
                  | Inr code \<Rightarrow>
                      if code = JString ''authorization_pending'' then Inr PENDING
                      else if code = JString ''slow_down'' then Inr BACKOFF
                      else if code = JString ''bad_verification_code'' then Inr BADCODE
                      else if code = JString ''code_expired'' then Inr EXPIRED
                      else Inl err))
          else Inl err
      | _ \<Rightarrow> Inl err)"

text \<open>\<open>waitOnResponseAccessToken\<close>, given what the POST settled with.\<close>

definition waitOnResponseAccessToken ::
  "js_runtime \<Rightarrow> authenticator \<Rightarrow> jsval \<Rightarrow> string http_result \<Rightarrow> js_error + jsval" where
  "waitOnResponseAccessToken rt a deviceCode' r =
     (case (case r of
              Resolved body' \<Rightarrow> poll_fulfilled rt (url (token_options rt a deviceCode')) body'
            | Rejected err \<Rightarrow> Inl err) of
        Inr v \<Rightarrow> Inr v
      | Inl err \<Rightarrow> poll_rejected rt err)"

section \<open>Identity and the personal access token\<close>

definition connectionData_options :: "js_runtime \<Rightarrow> authenticator \<Rightarrow> jsval \<Rightarrow> request_options" where
  "connectionData_options rt a accessToken =
     \<lparr> verb = GET,
       url = resourceUri a @ ''_apis/connectionData'',
       headers = HeaderFields (getAuthorizationHeaders rt a accessToken),
       body = NoBody \<rparr>"

text \<open>\<open>getAuthenticatedUserId\<close>, given what the GET settled with.\<close>

definition getAuthenticatedUserId ::
  "js_runtime \<Rightarrow> authenticator \<Rightarrow> jsval \<Rightarrow> string http_result \<Rightarrow> js_error + jsval" where
  "getAuthenticatedUserId rt a accessToken r =
     (case r of
        Rejected e \<Rightarrow> Inl e
      | Resolved body' \<Rightarrow>
          (case JSON_parse rt body' of
             None \<Rightarrow> Inl SyntaxError
           | Some json \<Rightarrow>
               (case get_prop json ''authenticatedUser'' of
                  Inl e \<Rightarrow> Inl e
                | Inr authenticatedUser \<Rightarrow>
                    if truthy authenticatedUser \<and> truthy (field authenticatedUser ''id'')
                    then Inr (field authenticatedUser ''id'')
                    else Inl (Error (''Did not receive an authenticatedUser or authenticatedUser.id for ''
                                      @ url (connectionData_options rt a accessToken)
                                      @ ''. Body: '' @ body')))))"

definition locationService_options :: "js_runtime \<Rightarrow> authenticator \<Rightarrow> jsval \<Rightarrow> request_options" where
  "locationService_options rt a accessToken =
     \<lparr> verb = GET,
       url = resourceUri a
         @ ''_apis/ServiceDefinitions/LocationService2/951917AC-A960-4999-8464-E3F0AA25B381?api-version=1.0'',
       headers = HeaderFields (getAuthorizationHeaders rt a accessToken),
       body = NoBody \<rparr>"

text \<open>
  \<open>getIdentityServiceUrl\<close>, given what the GET settled with. The test is
  \<open>json.locationMappings && json.locationMappings.length >= 0 &&
  json.locationMappings[0].location\<close>, so an empty array gets past the length test and
  reading \<open>location\<close> of its missing first element throws.
\<close>

definition getIdentityServiceUrl ::
  "js_runtime \<Rightarrow> authenticator \<Rightarrow> jsval \<Rightarrow> string http_result \<Rightarrow> js_error + jsval" where
  "getIdentityServiceUrl rt a accessToken r =
     (let complaint = (\<lambda>body'. Error (''Did not receive locationMappings or location from ''
                          @ url (locationService_options rt a accessToken) @ ''. Body: '' @ body'))
      in case r of
        Rejected e \<Rightarrow> Inl e
      | Resolved body' \<Rightarrow>
          (case JSON_parse rt body' of
             None \<Rightarrow> Inl SyntaxError
           | Some json \<Rightarrow>
               (case get_prop json ''locationMappings'' of
                  Inl e \<Rightarrow> Inl e
                | Inr locationMappings \<Rightarrow>
                    if \<not> truthy locationMappings then Inl (complaint body')
                    else if \<not> ge_zero rt (field locationMappings ''length'') then Inl (complaint body')
                    else
                      (case get_index0 locationMappings of
                         Inl e \<Rightarrow> Inl e
                       | Inr first \<Rightarrow>
                           (case get_prop first ''location'' of
                              Inl e \<Rightarrow> Inl e
                            | Inr location \<Rightarrow>
                                if truthy location then Inr location
                                else Inl (complaint body'))))))"

text \<open>
  The request that creates the token. \<open>targetAccounts\<close> is written as the template
  string \<open>`["${userId}"]`\<close>: a string that holds the text of an array.
\<close>

definition sessiontoken_options ::
  "js_runtime \<Rightarrow> authenticator \<Rightarrow> jsval \<Rightarrow> jsval \<Rightarrow> jsval \<Rightarrow> request_options" where
  \<open>sessiontoken_options rt a accessToken userId identityUrl =
     \<lparr> verb = POST,
       url = to_string rt identityUrl @ ''_apis/token/sessiontokens?api-version=1.0&tokentype=compact'',
       headers = HeaderFields (getAuthorizationHeaders rt a accessToken),
       body = JsonBody (JObject
         [(''scope'', JString (tokenScope a)),
          (''targetAccounts'', JString (''["'' @ to_string rt userId @ ''"]'')),
          (''displayName'', JString (tokenDescription a))]) \<rparr>\<close>

text \<open>
  \<open>getScopedCompactAccessToken\<close>, given what the location lookup and the POST settled
  with (the POST has \<open>json: true\<close>, so it resolves with a value): the result and the
  requests made.
\<close>

definition getScopedCompactAccessToken ::
  "js_runtime \<Rightarrow> authenticator \<Rightarrow> jsval \<Rightarrow> jsval \<Rightarrow> string http_result \<Rightarrow> jsval http_result
     \<Rightarrow> (js_error + jsval) \<times> event list" where
  "getScopedCompactAccessToken rt a accessToken userId r_location r_token =
     (case getIdentityServiceUrl rt a accessToken r_location of
        Inl e \<Rightarrow> (Inl e, [Request (locationService_options rt a accessToken)])
      | Inr identityUrl \<Rightarrow>
          ((case r_token of
              Rejected e \<Rightarrow> Inl e
            | Resolved body' \<Rightarrow> get_prop body' ''token''),
           [Request (locationService_options rt a accessToken),
            Request (sessiontoken_options rt a accessToken userId identityUrl)]))"

section \<open>Waiting for the token\<close>

text \<open>\<open>Cancel(throwExceptionOnCancel?)\<close>: \<open>None\<close> when the argument is left out.\<close>

definition Cancel :: "bool option \<Rightarrow> authenticator \<Rightarrow> authenticator" where
  "Cancel throwExceptionOnCancel' a =
     a\<lparr> cancelFlag := True, throwExceptionOnCancel := throwExceptionOnCancel' \<rparr>"

text \<open>
  JavaScript runs one task at a time, so a client can call \<open>Cancel\<close> only while
  \<open>WaitForPersonalAccessToken\<close> is suspended in an \<open>await\<close>. The flag is read in the
  loop condition, right after a poll has settled, and nowhere between a sleep and the
  poll that follows it. One step of the script therefore gives the arguments of the
  \<open>Cancel\<close> calls made since the previous poll settled (during the sleep, if any, and
  during the request) and what the poll's POST settles with.
\<close>

type_synonym poll_step = "bool option list \<times> string http_result"

text \<open>The condition of the \<open>while\<close> loop.\<close>

definition waiting :: "authenticator \<Rightarrow> jsval \<Rightarrow> bool" where
  "waiting a accessToken =
     (\<not> cancelFlag a \<and> accessToken \<noteq> EXPIRED \<and> (accessToken = PENDING \<or> accessToken = BACKOFF))"

text \<open>
  The \<open>while\<close> loop, one step of the script per iteration. Under the loop condition
  the token is \<open>PENDING\<close> or \<open>BACKOFF\<close>, so the \<open>else if\<close> of the body is its \<open>else\<close>.
  When the script ends while the loop is still waiting, the loop sleeps and sends the
  next poll, which never settles: the result is \<open>None\<close>.
\<close>

fun poll_loop ::
  "js_runtime \<Rightarrow> authenticator \<Rightarrow> jsnum \<Rightarrow> jsval \<Rightarrow> poll_step list
     \<Rightarrow> (js_error + authenticator \<times> jsval) option \<times> event list" where
  "poll_loop rt a sleepInterval accessToken [] =
     (if waiting a accessToken then
        (None, [Sleep (if accessToken = PENDING then sleepInterval
                       else jsnum_times sleepInterval (Num 2)),
                Request (token_options rt a (deviceCode a))])
      else (Some (Inr (a, accessToken)), []))"
| "poll_loop rt a sleepInterval accessToken ((cancels, r) # rest) =
     (if waiting a accessToken then
        (let sleepInterval' = (if accessToken = PENDING then sleepInterval
                               else jsnum_times sleepInterval (Num 2));
             evs = [Sleep sleepInterval', Request (token_options rt a (deviceCode a))]
         in case waitOnResponseAccessToken rt a (deviceCode a) r of
              Inl e \<Rightarrow> (Some (Inl e), evs)
            | Inr accessToken' \<Rightarrow>
                (case poll_loop rt (fold Cancel cancels a) sleepInterval' accessToken' rest of
                   (res, tr) \<Rightarrow> (res, evs @ tr)))
      else (Some (Inr (a, accessToken)), []))"

text \<open>What follows the loop.\<close>

definition after_loop ::
  "js_runtime \<Rightarrow> authenticator \<Rightarrow> jsval \<Rightarrow> string http_result \<Rightarrow> string http_result
     \<Rightarrow> jsval http_result \<Rightarrow> (js_error + jsval) \<times> event list" where
  "after_loop rt a accessToken r_user r_location r_token =
     (if accessToken = EXPIRED then
        (Inl (Error (''Verification code expired for '' @ resourceUri a
                       @ ''. Could not get an access token.'')), [])
      else if accessToken = BADCODE then
        (Inl (Error (''Incorrect verification code entered for '' @ resourceUri a
                       @ ''. Could not get an access token.'')), [])
      else if cancelFlag a then
        (if throwExceptionOnCancel a = Some True then (Inl (Error ''Request canceled by user.''), [])
         else (Inr JUndefined, []))
      else
        (case getAuthenticatedUserId rt a accessToken r_user of
           Inl e \<Rightarrow> (Inl e, [Request (connectionData_options rt a accessToken)])
         | Inr userId \<Rightarrow>
             (case getScopedCompactAccessToken rt a accessToken userId r_location r_token of
                (res, tr) \<Rightarrow> (res, Request (connectionData_options rt a accessToken) # tr))))"

text \<open>
  \<open>WaitForPersonalAccessToken\<close>, given the script of the polls and what the three
  requests after the loop settle with: the result (\<open>None\<close> when the script ends before
  the flow does, \<open>Inr JUndefined\<close> for \<open>return undefined\<close>) and everything it did, every
  request sent and every sleep, in order.
\<close>

definition WaitForPersonalAccessToken ::
  "js_runtime \<Rightarrow> authenticator \<Rightarrow> poll_step list \<Rightarrow> string http_result \<Rightarrow> string http_result
     \<Rightarrow> jsval http_result \<Rightarrow> (js_error + jsval) option \<times> event list" where
  "WaitForPersonalAccessToken rt a steps r_user r_location r_token =
     (if \<not> truthy (deviceCode a) then
        (Some (Inl (Error (''Valid device code not found for '' @ resourceUri a
                             @ ''. Ensure that a device code was requested.''))), [])
      else
        (case steps of
           [] \<Rightarrow> (None, [Request (token_options rt a (deviceCode a))])
         | (cancels, r) # rest \<Rightarrow>
             (case waitOnResponseAccessToken rt a (deviceCode a) r of
                Inl e \<Rightarrow> (Some (Inl e), [Request (token_options rt a (deviceCode a))])
              | Inr accessToken \<Rightarrow>
                  (case poll_loop rt (fold Cancel cancels a) (interval a) accessToken rest of
                     (None, tr) \<Rightarrow> (None, Request (token_options rt a (deviceCode a)) # tr)
                   | (Some (Inl e), tr) \<Rightarrow>
                       (Some (Inl e), Request (token_options rt a (deviceCode a)) # tr)
                   | (Some (Inr (a', accessToken')), tr) \<Rightarrow>
                       (case after_loop rt a' accessToken' r_user r_location r_token of
                          (res, tr') \<Rightarrow>
                            (Some res, Request (token_options rt a (deviceCode a)) # tr @ tr'))))))"

section \<open>Observing a run\<close>

text \<open>The sleeps of a run, in order, and its requests, in order.\<close>

fun sleeps :: "event list \<Rightarrow> jsnum list" where
  "sleeps [] = []"
| "sleeps (Sleep n # evs) = n # sleeps evs"
| "sleeps (Request q # evs) = sleeps evs"

fun requests :: "event list \<Rightarrow> request_options list" where
  "requests [] = []"
| "requests (Sleep n # evs) = requests evs"
| "requests (Request q # evs) = q # requests evs"

text \<open>
  A step of a script that leaves the loop waiting: no \<open>Cancel\<close> call comes with it and its
  poll is answered \<open>PENDING\<close> or \<open>BACKOFF\<close>.
\<close>

definition undisturbed :: "js_runtime \<Rightarrow> authenticator \<Rightarrow> poll_step \<Rightarrow> bool" where
  "undisturbed rt a step =
     (fst step = []
      \<and> (waitOnResponseAccessToken rt a (deviceCode a) (snd step) = Inr PENDING
         \<or> waitOnResponseAccessToken rt a (deviceCode a) (snd step) = Inr BACKOFF))"

text \<open>How many of the given poll outcomes are \<open>BACKOFF\<close>.\<close>

definition count_backoff :: "(js_error + jsval) list \<Rightarrow> nat" where
  "count_backoff outcomes = length (filter (\<lambda>out. out = Inr BACKOFF) outcomes)"

text \<open>
  The outcome of each poll of a script: what \<open>waitOnResponseAccessToken\<close> makes of the
  response the step gives.
\<close>

definition poll_outcomes :: "js_runtime \<Rightarrow> authenticator \<Rightarrow> poll_step list \<Rightarrow> (js_error + jsval) list" where
  "poll_outcomes rt a steps = map (\<lambda>step. waitOnResponseAccessToken rt a (deviceCode a) (snd step)) steps"

section \<open>A concrete runtime and authenticator\<close>

text \<open>
  For the concrete runs below: a runtime whose \<open>JSON.parse\<close> is given on the response
  bodies those runs use (on each it returns what \<open>JSON.parse\<close> returns; \<open><html>\<close> is
  not JSON), and the authenticator of the README's account after a device code was
  issued for it.
\<close>

definition example_parse :: "string \<Rightarrow> jsval option" where
  \<open>example_parse s =
     (if s = ''{"error":"authorization_pending"}'' then
        Some (JObject [(''error'', JString ''authorization_pending'')])
      else if s = ''{"error":"slow_down"}'' then
        Some (JObject [(''error'', JString ''slow_down'')])
      else if s = ''{"error":"bad_verification_code"}'' then
        Some (JObject [(''error'', JString ''bad_verification_code'')])
      else if s = ''{"error":"code_expired"}'' then
        Some (JObject [(''error'', JString ''code_expired'')])
      else if s = ''{"error":"invalid_grant"}'' then
        Some (JObject [(''error'', JString ''invalid_grant'')])
      else if s = ''{"access_token":"tok"}'' then
        Some (JObject [(''access_token'', JString ''tok'')])
      else if s = ''{"access_token":""}'' then
        Some (JObject [(''access_token'', JString [])])
      else None)\<close>

definition example_runtime :: js_runtime where
  "example_runtime =
     \<lparr> JSON_parse = example_parse,
       Number_parseInt = (\<lambda>v. NaN),
       ToString = (\<lambda>v. []),
       ToNumber = (\<lambda>v. NaN),
       base64 = (\<lambda>s. s),
       os_type = ''Linux'',
       os_release = ''6.1.0'',
       node_version = ''8.9.4'' \<rparr>"

definition example_auth_options :: IDeviceFlowAuthenticationOptions where
  "example_auth_options =
     \<lparr> opt_authorityHost = None,
       opt_clientId = ''00000000-0000-0000-0000-000000000000'',
       opt_redirectUri = ''https://some-url.com'',
       opt_userAgent = None \<rparr>"

definition example_authenticator :: authenticator where
  "example_authenticator =
     \<lparr> authorityHost = DefaultAuthorityHost,
       clientId = ''00000000-0000-0000-0000-000000000000'',
       redirectUri = ''https://some-url.com'',
       userAgent = ''vsts-device-flow-auth (Linux 6.1.0; Node 8.9.4)'',
       grantType = DefaultGrantType,
       tokenScope = [],
       tokenDescription = ''vsts-device-flow-auth Personal Access Token'',
       tenantId = Some ''11111111-1111-1111-1111-111111111111'',
       resourceUri = ''https://my-corporate-account.visualstudio.com/'',
       deviceCode = JString ''BAQABAAEAAAB'',
       interval = Num 5000,
       expiresIn = Num 900000,
       cancelFlag = False,
       throwExceptionOnCancel = Some False \<rparr>"

text \<open>
  The README's call with all token options left at their defaults, and the authenticator
  it constructs.
\<close>

definition example_token_options :: IDeviceFlowTokenOptions where
  "example_token_options =
     \<lparr> opt_grantType = None, opt_tokenScope = None, opt_tokenDescription = None \<rparr>"

definition example_created :: authenticator where
  "example_created = example_authenticator\<lparr> tenantId := None, deviceCode := JUndefined \<rparr>"

text \<open>
  The headers of an answer that carries the tenant header with the given value. The HTTP
  client settles a HEAD request with the headers of the answer: it resolves with them
  when the status is 2xx, and otherwise rejects with a \<open>StatusCodeError\<close> that has them as
  its \<open>response\<close>.
\<close>

definition tenant_response :: "string \<Rightarrow> jsval" where
  "tenant_response h = JObject [(''x-vss-resourcetenant'', JString h)]"

text \<open>The responses of the token endpoint that the concrete runs use.\<close>

definition pending_response :: "string http_result" where
  \<open>pending_response = Rejected (StatusCodeError 400 ''{"error":"authorization_pending"}'' (JObject []))\<close>

definition slow_down_response :: "string http_result" where
  \<open>slow_down_response = Rejected (StatusCodeError 400 ''{"error":"slow_down"}'' (JObject []))\<close>

definition expired_response :: "string http_result" where
  \<open>expired_response = Rejected (StatusCodeError 400 ''{"error":"code_expired"}'' (JObject []))\<close>

definition token_response :: "string http_result" where
  \<open>token_response = Resolved ''{"access_token":"tok"}''\<close>

section \<open>The outcome of one poll\<close>

text \<open>The four status strings are pairwise different.\<close>

lemma status_distinct:
  "PENDING \<noteq> BACKOFF" "PENDING \<noteq> BADCODE" "PENDING \<noteq> EXPIRED"
  "BACKOFF \<noteq> BADCODE" "BACKOFF \<noteq> EXPIRED" "BADCODE \<noteq> EXPIRED"
  "BACKOFF \<noteq> PENDING" "BADCODE \<noteq> PENDING" "EXPIRED \<noteq> PENDING"
  "BADCODE \<noteq> BACKOFF" "EXPIRED \<noteq> BACKOFF" "EXPIRED \<noteq> BADCODE"
  by (simp_all add: PENDING_def BACKOFF_def BADCODE_def EXPIRED_def)

















text \<open>
  The token is returned as it is, with no tag: a 2xx response whose \<open>access_token\<close> is the
  string \<open>PENDING\<close> has the same outcome as \<open>authorization_pending\<close> at 400.
\<close>

lemma token_equal_to_status:
  assumes "JSON_parse rt b = Some (JObject [(''access_token'', JString ''PENDING'')])"
  shows "waitOnResponseAccessToken rt a dc (Resolved b) = Inr PENDING"
  using assms by (simp add: waitOnResponseAccessToken_def poll_fulfilled_def PENDING_def)

section \<open>Construction and the precondition of waiting\<close>

text \<open>
  Without a device code the wait fails at once. The constructor stores none, and neither
  does a \<open>GetDeviceFlowDetails\<close> that fails.
\<close>

lemma wait_without_device_code:
  "\<not> truthy (deviceCode a) \<Longrightarrow>
   WaitForPersonalAccessToken rt a steps r_user r_location r_token =
     (Some (Inl (Error (''Valid device code not found for '' @ resourceUri a
                          @ ''. Ensure that a device code was requested.''))), [])"
  by (simp add: WaitForPersonalAccessToken_def)

lemma constructed_deviceCode:
  "DeviceFlowAuthenticator rt uri authOptions tokenOptions = Inr a \<Longrightarrow> deviceCode a = JUndefined"
  by (auto simp: DeviceFlowAuthenticator_def split: if_splits option.splits)

lemma failed_details_deviceCode:
  "GetDeviceFlowDetails rt a r_head r_post = (Inl e, a', tr) \<Longrightarrow> deviceCode a' = deviceCode a"
  by (auto simp: GetDeviceFlowDetails_def Let_def
      split: sum.splits http_result.splits option.splits)

text \<open>
  C5. On an authenticator that holds no device code (its \<open>deviceCode\<close> is \<open>undefined\<close> or
  otherwise falsy), \<open>WaitForPersonalAccessToken\<close> fails with the error "Valid device code
  not found ..." and does nothing else: no request is sent and nothing sleeps, whatever
  the endpoints would have answered. That is the state of every authenticator the
  constructor returns, and \<open>GetDeviceFlowDetails\<close> leaves the device code as it was
  whenever it fails.
\<close>

theorem C5_wait_requires_device_code:
  "(\<not> truthy (deviceCode a) \<longrightarrow>
      WaitForPersonalAccessToken rt a steps r_user r_location r_token =
        (Some (Inl (Error (''Valid device code not found for '' @ resourceUri a
                             @ ''. Ensure that a device code was requested.''))), []))
   \<and> (DeviceFlowAuthenticator rt uri authOptions tokenOptions = Inr a \<longrightarrow> deviceCode a = JUndefined)
   \<and> (GetDeviceFlowDetails rt a r_head r_post = (Inl e, a', tr) \<longrightarrow> deviceCode a' = deviceCode a)"
  using wait_without_device_code [of a rt steps r_user r_location r_token]
    constructed_deviceCode [of rt uri authOptions tokenOptions a]
    failed_details_deviceCode [of rt a r_head r_post e a' tr]
  by blast

text \<open>
  The README's authenticator, waited on right after construction.
\<close>

lemma example_constructed:
  "DeviceFlowAuthenticator example_runtime ''https://my-corporate-account.visualstudio.com''
     example_auth_options (Some example_token_options) = Inr example_created"
  by (simp add: DeviceFlowAuthenticator_def example_auth_options_def example_token_options_def
      example_created_def example_authenticator_def example_runtime_def or_default_def
      getDefaultUserAgent_def addTrailingSeparator_def)

theorem C5_wait_requires_device_code_witness:
  \<open>DeviceFlowAuthenticator example_runtime ''https://my-corporate-account.visualstudio.com''
     example_auth_options (Some example_token_options) = Inr example_created
   \<and> deviceCode example_created = JUndefined
   \<and> WaitForPersonalAccessToken example_runtime example_created
        [([], Resolved ''{"access_token":"tok"}'')]
        (Rejected RequestError) (Rejected RequestError) (Rejected RequestError)
      = (Some (Inl (Error (''Valid device code not found for ''
            @ ''https://my-corporate-account.visualstudio.com/''
            @ ''. Ensure that a device code was requested.''))), [])\<close>
proof -
  have c: "DeviceFlowAuthenticator example_runtime ''https://my-corporate-account.visualstudio.com''
     example_auth_options (Some example_token_options) = Inr example_created"
    by (rule example_constructed)
  have u: "resourceUri example_created = ''https://my-corporate-account.visualstudio.com/''"
    by (simp add: example_created_def example_authenticator_def)
  note t = C5_wait_requires_device_code [where a = example_created and rt = example_runtime
      and uri = "''https://my-corporate-account.visualstudio.com''"
      and authOptions = example_auth_options and tokenOptions = "Some example_token_options"]
  from t c have d: "deviceCode example_created = JUndefined" by blast
  with t u c show ?thesis by simp
qed

text \<open>
  The constructor reads \<open>tokenOptions.grantType\<close> without testing \<open>tokenOptions\<close>, so every
  otherwise valid construction that leaves the third argument out throws.
\<close>

lemma omitted_token_options:
  "uri \<noteq> [] \<Longrightarrow> opt_clientId authOptions \<noteq> [] \<Longrightarrow> opt_redirectUri authOptions \<noteq> [] \<Longrightarrow>
   DeviceFlowAuthenticator rt uri authOptions None = Inl TypeError"
  by (simp add: DeviceFlowAuthenticator_def)

text \<open>
  C6. The README constructs the authenticator with two arguments,
  \<open>new DeviceFlowAuthenticator(uri, authOptions)\<close>, and the signature declares
  \<open>tokenOptions\<close> optional. With that call the constructor does not return an authenticator
  with the default grant type, scope and description: it throws \<open>TypeError\<close>.
\<close>

theorem C6_token_options_omitted:
  "DeviceFlowAuthenticator example_runtime ''https://my-corporate-account.visualstudio.com''
     example_auth_options None = Inl TypeError"
  by (simp add: DeviceFlowAuthenticator_def example_auth_options_def)

section \<open>The headers and bodies of the requests\<close>

lemma details_first_request:
  "\<exists>tr. snd (snd (GetDeviceFlowDetails rt a r_head r_post)) = Request (getTenantId_options a) # tr"
  by (auto simp: GetDeviceFlowDetails_def Let_def
      split: sum.splits http_result.splits option.splits)

text \<open>
  C7. The first request of \<open>GetDeviceFlowDetails\<close> is the tenant probe, and its
  \<open>headers\<close> option is the method \<open>this.getUserAgentHeaders\<close> itself, not the object the
  method returns: the probe is sent without a \<open>User-Agent\<close> header.
\<close>

theorem C7_tenant_probe_without_user_agent:
  "(\<exists>tr. snd (snd (GetDeviceFlowDetails rt a r_head r_post)) = Request (getTenantId_options a) # tr)
   \<and> headers (getTenantId_options a) = HeadersFunction
   \<and> sent_header (getTenantId_options a) ''User-Agent'' = None"
  using details_first_request [of rt a r_head r_post]
  by (simp add: getTenantId_options_def sent_header_def)

text \<open>
  Every other request of the flow carries the user agent: the device-code request and
  the polls call \<open>this.getUserAgentHeaders()\<close>, the authenticated requests get it from
  \<open>getAuthorizationHeaders\<close>.
\<close>

lemma other_requests_user_agent:
  "sent_header (devicecode_options a) ''User-Agent'' = Some (userAgent a)"
  "sent_header (token_options rt a dc) ''User-Agent'' = Some (userAgent a)"
  "sent_header (connectionData_options rt a tok) ''User-Agent'' = Some (userAgent a)"
  "sent_header (locationService_options rt a tok) ''User-Agent'' = Some (userAgent a)"
  "sent_header (sessiontoken_options rt a tok uid iu) ''User-Agent'' = Some (userAgent a)"
  by (simp_all add: sent_header_def devicecode_options_def token_options_def
      connectionData_options_def locationService_options_def sessiontoken_options_def
      getUserAgentHeaders_def getAuthorizationHeaders_def)

text \<open>
  C8. The body of the request that creates the token holds the configured scope, the
  token description as \<open>displayName\<close>, and as \<open>targetAccounts\<close> a string: the text of an
  array literal around the identity id. It is not an array holding the id.
\<close>

theorem C8_target_accounts_is_a_string:
  \<open>body (sessiontoken_options rt a accessToken (JString userId) identityUrl) =
     JsonBody (JObject
       [(''scope'', JString (tokenScope a)),
        (''targetAccounts'', JString (''["'' @ userId @ ''"]'')),
        (''displayName'', JString (tokenDescription a))])
   \<and> body (sessiontoken_options rt a accessToken (JString userId) identityUrl) \<noteq>
     JsonBody (JObject
       [(''scope'', JString (tokenScope a)),
        (''targetAccounts'', JArray [JString userId]),
        (''displayName'', JString (tokenDescription a))])\<close>
  by (simp add: sessiontoken_options_def to_string_def)

text \<open>
  That request is the second and last one of \<open>getScopedCompactAccessToken\<close>.
\<close>

lemma minting_request:
  "getIdentityServiceUrl rt a accessToken r_location = Inr identityUrl \<Longrightarrow>
   requests (snd (getScopedCompactAccessToken rt a accessToken userId r_location r_token)) =
     [locationService_options rt a accessToken,
      sessiontoken_options rt a accessToken userId identityUrl]"
  by (simp add: getScopedCompactAccessToken_def)

section \<open>Tenant resolution\<close>

text \<open>
  \<open>split_comma\<close> is never empty, is the string itself when it has no comma, has one
  piece more than the string has commas, and its pieces have no comma.
\<close>

lemma split_comma_not_Nil: "split_comma s \<noteq> []"
  by (induction s) (auto split: list.splits)

lemma split_comma_no_comma: "CHR '','' \<notin> set s \<Longrightarrow> split_comma s = [s]"
  by (induction s) auto

lemma split_comma_length: "length (split_comma s) = Suc (length (filter (\<lambda>c. c = CHR '','') s))"
  by (induction s) (auto split: list.splits)

lemma split_comma_pieces: "p \<in> set (split_comma s) \<Longrightarrow> CHR '','' \<notin> set p"
  by (induction s arbitrary: p) (auto split: list.splits if_splits)

text \<open>
  The \<open>for\<close> loop finds the first id that differs from the empty guid.
\<close>

lemma first_tenant_find: "first_tenant ids = find (\<lambda>i. i \<noteq> empty_guid) ids"
  by (induction ids) auto

lemma tenant_of_header:
  assumes "h \<noteq> []"
  shows "(case (case split_comma h of [] \<Rightarrow> None | [t] \<Rightarrow> Some t | tenantIds \<Rightarrow> first_tenant tenantIds) of
            None \<Rightarrow> Inl TypeError | Some t \<Rightarrow> Inr (trim t)) = R
         \<Longrightarrow> get_prop resp ''x-vss-resourcetenant'' = Inr (JString h)
         \<Longrightarrow> getTenantId a (Rejected (StatusCodeError status b resp)) = R"
  using assms by (simp add: getTenantId_def)

text \<open>
  A probe that is answered with a status outside 2xx is rejected with a
  \<open>StatusCodeError\<close> whose \<open>response\<close> holds the headers of the answer, and the \<open>catch\<close> block
  reads the tenant header there. Let it be present with the non-empty value \<open>h\<close>. If \<open>h\<close>
  is one comma-separated id, the tenant id is that id with surrounding white space
  removed (the empty guid included). If \<open>h\<close> has several ids, the tenant id is the first of
  them that differs from the empty guid, with surrounding white space removed.
\<close>

lemma tenant_from_rejection:
  assumes "h \<noteq> []"
    and "get_prop resp ''x-vss-resourcetenant'' = Inr (JString h)"
  shows "(split_comma h = [t] \<longrightarrow>
            getTenantId a (Rejected (StatusCodeError status b resp)) = Inr (trim t))
       \<and> (1 < length (split_comma h) \<longrightarrow> find (\<lambda>i. i \<noteq> empty_guid) (split_comma h) = Some t \<longrightarrow>
            getTenantId a (Rejected (StatusCodeError status b resp)) = Inr (trim t))"
proof (intro conjI impI)
  assume one: "split_comma h = [t]"
  have "(case (case split_comma h of [] \<Rightarrow> None | [t] \<Rightarrow> Some t | tenantIds \<Rightarrow> first_tenant tenantIds) of
            None \<Rightarrow> Inl TypeError | Some t \<Rightarrow> Inr (trim t)) = (Inr (trim t) :: js_error + string)"
    by (simp add: one)
  from tenant_of_header [OF assms(1) this assms(2)]
  show "getTenantId a (Rejected (StatusCodeError status b resp)) = Inr (trim t)" .
next
  assume many: "1 < length (split_comma h)"
    and first: "find (\<lambda>i. i \<noteq> empty_guid) (split_comma h) = Some t"
  from many obtain x y zs where xs: "split_comma h = x # y # zs"
    by (cases "split_comma h"; simp) (metis list.exhaust list.size(3) less_numeral_extra(3))
  have "(case (case split_comma h of [] \<Rightarrow> None | [t] \<Rightarrow> Some t | tenantIds \<Rightarrow> first_tenant tenantIds) of
            None \<Rightarrow> Inl TypeError | Some t \<Rightarrow> Inr (trim t)) = (Inr (trim t) :: js_error + string)"
    using first by (simp add: xs first_tenant_find [symmetric])
  from tenant_of_header [OF assms(1) this assms(2)]
  show "getTenantId a (Rejected (StatusCodeError status b resp)) = Inr (trim t)" .
qed

text \<open>
  A header that lists the empty guid before the tenant, the same with white space
  around the tenant, and a header that holds the empty guid alone.
\<close>

lemma trim_guid:
  "trim ''11111111-1111-1111-1111-111111111111'' = ''11111111-1111-1111-1111-111111111111''"
  "trim '' 11111111-1111-1111-1111-111111111111 '' = ''11111111-1111-1111-1111-111111111111''"
  "trim ''00000000-0000-0000-0000-000000000000'' = ''00000000-0000-0000-0000-000000000000''"
  by (simp_all add: trim_def is_space_def)

lemma split_examples:
  "split_comma ''00000000-0000-0000-0000-000000000000,11111111-1111-1111-1111-111111111111''
     = [''00000000-0000-0000-0000-000000000000'', ''11111111-1111-1111-1111-111111111111'']"
  "split_comma ''00000000-0000-0000-0000-000000000000, 11111111-1111-1111-1111-111111111111 ''
     = [''00000000-0000-0000-0000-000000000000'', '' 11111111-1111-1111-1111-111111111111 '']"
  "split_comma ''00000000-0000-0000-0000-000000000000'' = [''00000000-0000-0000-0000-000000000000'']"
  by simp_all

lemma tenant_from_rejection_examples:
  "getTenantId a (Rejected (StatusCodeError 401 [] (tenant_response
       ''00000000-0000-0000-0000-000000000000,11111111-1111-1111-1111-111111111111'')))
     = Inr ''11111111-1111-1111-1111-111111111111''"
  "getTenantId a (Rejected (StatusCodeError 401 [] (tenant_response
       ''00000000-0000-0000-0000-000000000000, 11111111-1111-1111-1111-111111111111 '')))
     = Inr ''11111111-1111-1111-1111-111111111111''"
  "getTenantId a (Rejected (StatusCodeError 401 [] (tenant_response
       ''00000000-0000-0000-0000-000000000000'')))
     = Inr ''00000000-0000-0000-0000-000000000000''"
proof -
  show "getTenantId a (Rejected (StatusCodeError 401 [] (tenant_response
       ''00000000-0000-0000-0000-000000000000,11111111-1111-1111-1111-111111111111'')))
     = Inr ''11111111-1111-1111-1111-111111111111''"
    using tenant_from_rejection [where a = a
        and h = "''00000000-0000-0000-0000-000000000000,11111111-1111-1111-1111-111111111111''"
        and t = "''11111111-1111-1111-1111-111111111111''"
        and status = 401 and b = "[]" and resp = "tenant_response
           ''00000000-0000-0000-0000-000000000000,11111111-1111-1111-1111-111111111111''"]
    by (simp add: split_examples trim_guid empty_guid_def tenant_response_def)
  show "getTenantId a (Rejected (StatusCodeError 401 [] (tenant_response
       ''00000000-0000-0000-0000-000000000000, 11111111-1111-1111-1111-111111111111 '')))
     = Inr ''11111111-1111-1111-1111-111111111111''"
    using tenant_from_rejection [where a = a
        and h = "''00000000-0000-0000-0000-000000000000, 11111111-1111-1111-1111-111111111111 ''"
        and t = "'' 11111111-1111-1111-1111-111111111111 ''"
        and status = 401 and b = "[]" and resp = "tenant_response
           ''00000000-0000-0000-0000-000000000000, 11111111-1111-1111-1111-111111111111 ''"]
    by (simp add: split_examples trim_guid empty_guid_def tenant_response_def)
  show "getTenantId a (Rejected (StatusCodeError 401 [] (tenant_response
       ''00000000-0000-0000-0000-000000000000'')))
     = Inr ''00000000-0000-0000-0000-000000000000''"
    using tenant_from_rejection [where a = a
        and h = "''00000000-0000-0000-0000-000000000000''"
        and t = "''00000000-0000-0000-0000-000000000000''"
        and status = 401 and b = "[]" and resp = "tenant_response
           ''00000000-0000-0000-0000-000000000000''"]
    by (simp add: split_examples trim_guid empty_guid_def tenant_response_def)
qed

text \<open>
  C4. A probe that is answered with a 2xx status resolves with the headers of the
  answer. The \<open>try\<close> block reads \<open>body.response\<close> of that value, which is \<open>undefined\<close> as long
  as no header is named \<open>response\<close>, so reading the tenant header of it throws; the \<open>catch\<close>
  block then reads \<open>error.response\<close> of that \<open>TypeError\<close>, which is \<open>undefined\<close> as well.
  Whatever the headers of a successful probe hold, the tenant header with one id or with
  several among them, no tenant id is resolved: \<open>getTenantId\<close> fails with \<open>TypeError\<close>.
\<close>

theorem C4_tenant_header_of_success_is_lost:
  assumes "map_of hs ''response'' = None"
  shows "getTenantId a (Resolved (JObject hs)) = Inl TypeError"
  using assms by (simp add: getTenantId_def read_resourcetenant_def)

text \<open>
  The successful probe whose tenant header lists the empty guid and then the tenant.
\<close>

theorem C4_tenant_header_of_success_is_lost_witness:
  "map_of [(''x-vss-resourcetenant'',
            JString ''00000000-0000-0000-0000-000000000000,11111111-1111-1111-1111-111111111111'')]
          ''response'' = None
   \<and> getTenantId example_created (Resolved (tenant_response
       ''00000000-0000-0000-0000-000000000000,11111111-1111-1111-1111-111111111111''))
     = Inl TypeError"
  using C4_tenant_header_of_success_is_lost [where a = example_created
      and hs = "[(''x-vss-resourcetenant'',
            JString ''00000000-0000-0000-0000-000000000000,11111111-1111-1111-1111-111111111111'')]"]
  by (simp add: tenant_response_def)

text \<open>
  Were a header of the successful answer named \<open>response\<close>, its value would be a string,
  which has no tenant header either.
\<close>

lemma tenant_success_header_named_response:
  "getTenantId a (Resolved (JObject [(''response'', JString v), (''x-vss-resourcetenant'', JString h)]))
     = Inl (Error (''Did not receive tenant id from '' @ resourceUri a))"
  by (simp add: getTenantId_def read_resourcetenant_def)

text \<open>
  When every one of several ids is the empty guid the loop selects none, and trimming
  \<open>undefined\<close> throws.
\<close>

lemma tenant_all_empty_guid:
  "getTenantId a (Rejected (StatusCodeError 401 [] (tenant_response
       ''00000000-0000-0000-0000-000000000000,00000000-0000-0000-0000-000000000000'')))
     = Inl TypeError"
  by (simp add: getTenantId_def tenant_response_def empty_guid_def)

text \<open>
  C9. When the probe is rejected without a response (no connection, no such host), the
  \<open>catch\<close> block reads a property of \<open>error.response\<close>, which is \<open>undefined\<close>: tenant
  resolution fails with \<open>TypeError\<close>, not with the error "Did not receive tenant id ...".
\<close>

theorem C9_failure_without_response:
  "getTenantId a (Rejected RequestError) = Inl TypeError"
  by (simp add: getTenantId_def)

text \<open>
  A rejection whose response lacks the header does end in that error.
\<close>

lemma tenant_header_absent:
  assumes "map_of hs ''x-vss-resourcetenant'' = None"
  shows "getTenantId a (Rejected (StatusCodeError status b (JObject hs))) =
           Inl (Error (''Did not receive tenant id from '' @ resourceUri a))"
  using assms by (simp add: getTenantId_def)

section \<open>The wait loop\<close>

text \<open>
  \<open>Cancel\<close> changes the two cancellation fields only; after several calls the last
  argument stands. Polling does not look at either field.
\<close>

lemma fold_Cancel:
  "fold Cancel cs a =
     (if cs = [] then a else a\<lparr> cancelFlag := True, throwExceptionOnCancel := last cs \<rparr>)"
  by (induction cs arbitrary: a) (auto simp: Cancel_def)

lemma token_options_ignores_cancel [simp]:
  "token_options rt (a\<lparr> cancelFlag := f, throwExceptionOnCancel := t \<rparr>) dc = token_options rt a dc"
  by (simp add: token_options_def msa_backed_def getUserAgentHeaders_def)

lemma poll_ignores_cancel [simp]:
  "waitOnResponseAccessToken rt (a\<lparr> cancelFlag := f, throwExceptionOnCancel := t \<rparr>) dc r
     = waitOnResponseAccessToken rt a dc r"
  by (cases r) (simp_all add: waitOnResponseAccessToken_def)

lemma after_fold_Cancel [simp]:
  "deviceCode (fold Cancel cs a) = deviceCode a"
  "waitOnResponseAccessToken rt (fold Cancel cs a) dc r = waitOnResponseAccessToken rt a dc r"
  "token_options rt (fold Cancel cs a) dc = token_options rt a dc"
  "poll_outcomes rt (fold Cancel cs a) steps = poll_outcomes rt a steps"
  by (simp_all add: fold_Cancel poll_outcomes_def)

lemma poll_loop_exit:
  "\<not> waiting a tok \<Longrightarrow> poll_loop rt a sl tok steps = (Some (Inr (a, tok)), [])"
  by (cases steps) auto

lemma poll_loop_failure:
  "waiting a tok \<Longrightarrow> waitOnResponseAccessToken rt a (deviceCode a) r = Inl e \<Longrightarrow>
   poll_loop rt a sl tok ((cs, r) # rest) =
     (Some (Inl e),
      [Sleep (if tok = PENDING then sl else jsnum_times sl (Num 2)),
       Request (token_options rt a (deviceCode a))])"
  by (simp add: Let_def)

lemma poll_loop_again:
  "waiting a tok \<Longrightarrow> waitOnResponseAccessToken rt a (deviceCode a) r = Inr tok' \<Longrightarrow>
   poll_loop rt a sl tok ((cs, r) # rest) =
     (fst (poll_loop rt (fold Cancel cs a) (if tok = PENDING then sl else jsnum_times sl (Num 2)) tok' rest),
      Sleep (if tok = PENDING then sl else jsnum_times sl (Num 2))
        # Request (token_options rt a (deviceCode a))
        # snd (poll_loop rt (fold Cancel cs a) (if tok = PENDING then sl else jsnum_times sl (Num 2)) tok' rest))"
  by (simp add: Let_def split: prod.splits)

declare poll_loop.simps [simp del]

lemma sleeps_append [simp]: "sleeps (xs @ ys) = sleeps xs @ sleeps ys"
  by (induction xs rule: sleeps.induct) simp_all

lemma requests_append [simp]: "requests (xs @ ys) = requests xs @ requests ys"
  by (induction xs rule: requests.induct) simp_all

lemma count_backoff_Cons:
  "count_backoff (Inr tok # outs) = (if tok = BACKOFF then 1 else 0) + count_backoff outs"
  by (simp add: count_backoff_def)

lemma count_backoff_Nil [simp]: "count_backoff [] = 0"
  by (simp add: count_backoff_def)

lemma poll_outcomes_Cons:
  "poll_outcomes rt a ((cs, r) # rest) = waitOnResponseAccessToken rt a (deviceCode a) r # poll_outcomes rt a rest"
  by (simp add: poll_outcomes_def)

subsection \<open>Doubling the interval\<close>

text \<open>
  Doubling a double is exact until it overflows. Starting from 5000, the product is
  \<open>5000 * 2 ^ c\<close> after \<open>c\<close> doublings for \<open>c\<close> up to 1011, and \<open>Infinity\<close> from then on.
\<close>

lemma bit_length_double: "0 < n \<Longrightarrow> bit_length (2 * n) = Suc (bit_length n)"
  by (subst bit_length.simps) simp

lemma bit_length_times_power: "0 < n \<Longrightarrow> bit_length (n * 2 ^ c) = bit_length n + c"
proof (induction c)
  case 0
  then show ?case by simp
next
  case (Suc c)
  then have "0 < n * 2 ^ c" by simp
  from bit_length_double [OF this] Suc show ?case by (simp add: mult.assoc mult.left_commute)
qed

lemma bit_length_5000: "bit_length 5000 = 13"
  by (simp add: bit_length.simps)

lemma to_double_exact:
  assumes "0 \<le> n" and "2 ^ (bit_length n - 53) dvd n"
  shows "to_double n = (if 2 ^ 1024 \<le> n then PosInfinity else Num n)"
proof -
  from assms(2) have "n mod 2 ^ (bit_length n - 53) = 0" by simp
  moreover from assms(2) have "n div 2 ^ (bit_length n - 53) * 2 ^ (bit_length n - 53) = n" by simp
  ultimately show ?thesis using assms(1)
    by (simp add: to_double_def Let_def)
qed

lemma to_double_5000:
  "to_double (5000 * 2 ^ c) = (if c \<le> 1011 then Num (5000 * 2 ^ c) else PosInfinity)"
proof -
  have len: "bit_length (5000 * 2 ^ c) = 13 + c"
    using bit_length_times_power [of 5000 c] by (simp add: bit_length_5000)
  have "(2::int) ^ (13 + c - 53) dvd 2 ^ c"
    by (rule le_imp_power_dvd) simp
  then have d: "(2::int) ^ (bit_length (5000 * 2 ^ c) - 53) dvd 5000 * 2 ^ c"
    unfolding len by (rule dvd_mult)
  have big: "((2::int) ^ 1024 \<le> 5000 * 2 ^ c) = (\<not> c \<le> 1011)"
  proof (cases "c \<le> 1011")
    case True
    then have "(2::int) ^ c \<le> 2 ^ 1011" by (intro power_increasing) simp_all
    then have "(5000::int) * 2 ^ c \<le> 5000 * 2 ^ 1011" by simp
    also have "\<dots> < 2 ^ 1024" by simp
    finally show ?thesis using True by simp
  next
    case False
    then have "(2::int) ^ 1012 \<le> 2 ^ c" by (intro power_increasing) simp_all
    then have "(5000::int) * 2 ^ 1012 \<le> 5000 * 2 ^ c" by simp
    moreover have "(2::int) ^ 1024 \<le> 5000 * 2 ^ 1012" by simp
    ultimately show ?thesis using False by simp
  qed
  from to_double_exact [OF _ d] big show ?thesis by simp
qed

lemma doublings_5000:
  "((\<lambda>y. jsnum_times y (Num 2)) ^^ c) (Num 5000) =
     (if c \<le> 1011 then Num (5000 * 2 ^ c) else PosInfinity)"
proof (induction c)
  case 0
  then show ?case by simp
next
  case (Suc c)
  show ?case
  proof (cases "c \<le> 1011")
    case True
    with Suc have "((\<lambda>y. jsnum_times y (Num 2)) ^^ Suc c) (Num 5000) = to_double (5000 * 2 ^ Suc c)"
      by (simp add: mult.commute mult.left_commute)
    also have "\<dots> = (if Suc c \<le> 1011 then Num (5000 * 2 ^ Suc c) else PosInfinity)"
      by (rule to_double_5000)
    finally show ?thesis .
  next
    case False
    with Suc show ?thesis by simp
  qed
qed

subsection \<open>Sleeping\<close>

text \<open>
  The \<open>k\<close>-th sleep of the loop is the interval the loop started with, doubled once for
  every \<open>BACKOFF\<close> among the outcomes seen so far. The events of the loop are its sleeps,
  each followed at once by a poll. The loop sleeps once for every poll that is answered
  \<open>PENDING\<close> or \<open>BACKOFF\<close> while nothing is cancelled, up to the first poll that is not.
  Nothing sleeps after the loop, and no request after the loop is a poll.
\<close>

lemma loop_sleeps:
  "k < length (sleeps (snd (poll_loop rt a sl tok steps))) \<Longrightarrow>
   sleeps (snd (poll_loop rt a sl tok steps)) ! k =
     ((\<lambda>y. jsnum_times y (Num 2)) ^^ count_backoff (take (Suc k) (Inr tok # poll_outcomes rt a steps))) sl"
proof (induction steps arbitrary: a sl tok k)
  case Nil
  then show ?case using status_distinct
    by (auto simp: poll_loop.simps waiting_def count_backoff_Cons split: if_splits)
next
  case (Cons step rest)
  obtain cs r where step: "step = (cs, r)" by (cases step)
  let ?f = "\<lambda>y. jsnum_times y (Num 2)"
  show ?case
  proof (cases "waiting a tok")
    case False
    with Cons.prems show ?thesis by (simp add: poll_loop_exit)
  next
    case True
    then have tok: "tok = PENDING \<or> tok = BACKOFF" by (simp add: waiting_def)
    define d :: nat where "d = (if tok = BACKOFF then 1 else 0)"
    define sl' where "sl' = (?f ^^ d) sl"
    have sl': "(if tok = PENDING then sl else jsnum_times sl (Num 2)) = sl'"
      using tok status_distinct by (auto simp: sl'_def d_def)
    show ?thesis
    proof (cases "waitOnResponseAccessToken rt a (deviceCode a) r")
      case (Inl e)
      have "sleeps (snd (poll_loop rt a sl tok (step # rest))) = [sl']"
        unfolding step poll_loop_failure [OF True Inl] sl' by simp
      with Cons.prems show ?thesis
        by (simp add: sl'_def d_def count_backoff_Cons)
    next
      case (Inr tok')
      let ?rec = "poll_loop rt (fold Cancel cs a) sl' tok' rest"
      have S: "sleeps (snd (poll_loop rt a sl tok (step # rest))) = sl' # sleeps (snd ?rec)"
        unfolding step poll_loop_again [OF True Inr] sl' by simp
      have O: "poll_outcomes rt a (step # rest) = Inr tok' # poll_outcomes rt a rest"
        by (simp add: step poll_outcomes_Cons Inr)
      show ?thesis
      proof (cases k)
        case 0
        then show ?thesis by (simp add: S sl'_def d_def count_backoff_Cons)
      next
        case (Suc j)
        with Cons.prems S have "j < length (sleeps (snd ?rec))" by simp
        from Cons.IH [OF this]
        have "sleeps (snd ?rec) ! j =
                (?f ^^ count_backoff (take (Suc j) (Inr tok' # poll_outcomes rt a rest))) sl'"
          by simp
        moreover have "count_backoff (take (Suc (Suc j)) (Inr tok # Inr tok' # poll_outcomes rt a rest))
                = count_backoff (take (Suc j) (Inr tok' # poll_outcomes rt a rest)) + d"
          by (simp add: count_backoff_Cons d_def)
        ultimately show ?thesis
          by (simp add: S Suc O sl'_def funpow_add del: funpow.simps)
      qed
    qed
  qed
qed

lemma loop_trace:
  "snd (poll_loop rt a sl tok steps) =
     concat (map (\<lambda>s. [Sleep s, Request (token_options rt a (deviceCode a))])
                 (sleeps (snd (poll_loop rt a sl tok steps))))"
proof (induction steps arbitrary: a sl tok)
  case Nil
  then show ?case by (simp add: poll_loop.simps)
next
  case (Cons step rest)
  obtain cs r where step: "step = (cs, r)" by (cases step)
  show ?case
  proof (cases "waiting a tok")
    case False
    then show ?thesis by (simp add: poll_loop_exit)
  next
    case True
    show ?thesis
    proof (cases "waitOnResponseAccessToken rt a (deviceCode a) r")
      case (Inl e)
      show ?thesis unfolding step poll_loop_failure [OF True Inl] by simp
    next
      case (Inr tok')
      show ?thesis unfolding step poll_loop_again [OF True Inr]
        using Cons.IH [of "fold Cancel cs a" "if tok = PENDING then sl else jsnum_times sl (Num 2)" tok']
        by simp
    qed
  qed
qed

lemma loop_sleeps_count:
  "\<not> cancelFlag a \<Longrightarrow>
   length (sleeps (snd (poll_loop rt a sl tok steps))) =
     (if tok = PENDING \<or> tok = BACKOFF then Suc (length (takeWhile (undisturbed rt a) steps)) else 0)"
proof (induction steps arbitrary: sl tok)
  case Nil
  then show ?case using status_distinct by (auto simp: poll_loop.simps waiting_def)
next
  case (Cons step rest)
  obtain cs r where step: "step = (cs, r)" by (cases step)
  show ?case
  proof (cases "tok = PENDING \<or> tok = BACKOFF")
    case False
    then have "\<not> waiting a tok" by (auto simp: waiting_def)
    with False show ?thesis by (simp add: poll_loop_exit)
  next
    case True
    with Cons.prems have w: "waiting a tok" using status_distinct by (auto simp: waiting_def)
    show ?thesis
    proof (cases "waitOnResponseAccessToken rt a (deviceCode a) r")
      case (Inl e)
      then have "\<not> undisturbed rt a step" by (simp add: undisturbed_def step)
      with True show ?thesis unfolding step poll_loop_failure [OF w Inl] by (simp add: step)
    next
      case (Inr tok')
      let ?sl = "if tok = PENDING then sl else jsnum_times sl (Num 2)"
      show ?thesis
      proof (cases "undisturbed rt a step")
        case u: True
        then have cs: "cs = []" and tok': "tok' = PENDING \<or> tok' = BACKOFF"
          using Inr by (auto simp: undisturbed_def step)
        from Cons.IH [OF Cons.prems, of ?sl tok'] tok' u True
        show ?thesis unfolding step poll_loop_again [OF w Inr]
          by (simp add: cs step)
      next
        case u: False
        then have "cs \<noteq> [] \<or> \<not> (tok' = PENDING \<or> tok' = BACKOFF)"
          using Inr by (auto simp: undisturbed_def step)
        then have "\<not> waiting (fold Cancel cs a) tok'"
          by (auto simp: waiting_def fold_Cancel)
        from poll_loop_exit [OF this] u True
        show ?thesis unfolding step poll_loop_again [OF w Inr]
          by (simp add: step)
      qed
    qed
  qed
qed

lemma loop_no_sleep_when_cancelled:
  "cancelFlag a \<Longrightarrow> sleeps (snd (poll_loop rt a sl tok steps)) = []"
  by (simp add: poll_loop_exit waiting_def)

lemma after_loop_sleeps [simp]:
  "sleeps (snd (after_loop rt a tok r_user r_location r_token)) = []"
  by (simp add: after_loop_def getScopedCompactAccessToken_def split: sum.splits prod.splits)

lemma after_loop_sleeps':
  "after_loop rt a tok r_user r_location r_token = (res, tr) \<Longrightarrow> sleeps tr = []"
  using after_loop_sleeps [of rt a tok r_user r_location r_token] by simp

lemma after_loop_no_poll:
  "Request (token_options rt a d) \<notin> set (snd (after_loop rt' a' tok r_user r_location r_token))"
  by (auto simp: after_loop_def getScopedCompactAccessToken_def token_options_def
        connectionData_options_def locationService_options_def sessiontoken_options_def
      split: sum.splits prod.splits)

lemma wait_sleeps:
  "sleeps (snd (WaitForPersonalAccessToken rt a steps r_user r_location r_token)) =
     (if \<not> truthy (deviceCode a) then []
      else case steps of
        [] \<Rightarrow> []
      | (cs, r) # rest \<Rightarrow>
          (case waitOnResponseAccessToken rt a (deviceCode a) r of
             Inl e \<Rightarrow> []
           | Inr tok \<Rightarrow> sleeps (snd (poll_loop rt (fold Cancel cs a) (interval a) tok rest))))"
  by (auto simp: WaitForPersonalAccessToken_def after_loop_sleeps'
      split: list.splits sum.splits prod.splits option.splits)

lemma wait_sleeps_count:
  "length (sleeps (snd (WaitForPersonalAccessToken rt a steps r_user r_location r_token))) =
     (if truthy (deviceCode a) \<and> \<not> cancelFlag a
      then length (takeWhile (undisturbed rt a) steps) else 0)"
proof (cases "truthy (deviceCode a)")
  case False
  then show ?thesis by (simp add: wait_sleeps)
next
  case True
  show ?thesis
  proof (cases steps)
    case Nil
    with True show ?thesis by (simp add: wait_sleeps)
  next
    case (Cons step rest)
    obtain cs r where step: "step = (cs, r)" by (cases step)
    show ?thesis
    proof (cases "waitOnResponseAccessToken rt a (deviceCode a) r")
      case (Inl e)
      then have "\<not> undisturbed rt a step" by (simp add: undisturbed_def step)
      with True Cons step Inl show ?thesis by (simp add: wait_sleeps)
    next
      case (Inr tok)
      have S: "sleeps (snd (WaitForPersonalAccessToken rt a ((cs, r) # rest) r_user r_location r_token))
                 = sleeps (snd (poll_loop rt (fold Cancel cs a) (interval a) tok rest))"
        using True Inr by (simp add: wait_sleeps)
      show ?thesis
      proof (cases "cancelFlag a \<or> cs \<noteq> []")
        case c: True
        then have "cancelFlag (fold Cancel cs a)" by (auto simp: fold_Cancel)
        from loop_no_sleep_when_cancelled [OF this]
        have Z: "sleeps (snd (WaitForPersonalAccessToken rt a ((cs, r) # rest) r_user r_location r_token)) = []"
          by (simp add: S)
        from c have "cancelFlag a \<or> \<not> undisturbed rt a (cs, r)"
          by (auto simp: undisturbed_def)
        with Z show ?thesis by (auto simp: Cons step)
      next
        case c: False
        then have cs: "cs = []" and nc: "\<not> cancelFlag a" by simp_all
        have S0: "sleeps (snd (WaitForPersonalAccessToken rt a (([], r) # rest) r_user r_location r_token))
                 = sleeps (snd (poll_loop rt a (interval a) tok rest))"
          using S by (simp add: cs)
        from loop_sleeps_count [OF nc, of rt "interval a" tok rest] show ?thesis
          using True nc Inr by (simp add: S0 cs Cons step undisturbed_def)
      qed
    qed
  qed
qed

lemma wait_sleeps_nth:
  assumes "k < length (sleeps (snd (WaitForPersonalAccessToken rt a steps r_user r_location r_token)))"
  shows "sleeps (snd (WaitForPersonalAccessToken rt a steps r_user r_location r_token)) ! k =
           ((\<lambda>y. jsnum_times y (Num 2)) ^^ count_backoff (take (Suc k) (poll_outcomes rt a steps)))
             (interval a)"
proof -
  let ?S = "sleeps (snd (WaitForPersonalAccessToken rt a steps r_user r_location r_token))"
  from assms have ne: "?S \<noteq> []" by auto
  then obtain cs r rest tok where steps: "steps = (cs, r) # rest"
    and out: "waitOnResponseAccessToken rt a (deviceCode a) r = Inr tok"
    and S: "?S = sleeps (snd (poll_loop rt (fold Cancel cs a) (interval a) tok rest))"
    unfolding wait_sleeps
    by (auto split: if_splits list.splits sum.splits)
  have O: "poll_outcomes rt a steps = Inr tok # poll_outcomes rt a rest"
    by (simp add: steps poll_outcomes_Cons out)
  from assms S have k: "k < length (sleeps (snd (poll_loop rt (fold Cancel cs a) (interval a) tok rest)))"
    by simp
  from loop_sleeps [OF k] show ?thesis
    by (simp add: S O del: funpow.simps)
qed

lemma wait_trace:
  assumes "truthy (deviceCode a)"
  shows "\<exists>tail. snd (WaitForPersonalAccessToken rt a steps r_user r_location r_token) =
           Request (token_options rt a (deviceCode a))
             # concat (map (\<lambda>s. [Sleep s, Request (token_options rt a (deviceCode a))])
                 (sleeps (snd (WaitForPersonalAccessToken rt a steps r_user r_location r_token))))
             @ tail
         \<and> sleeps tail = []
         \<and> Request (token_options rt a (deviceCode a)) \<notin> set tail"
proof (cases steps)
  case Nil
  with assms show ?thesis by (simp add: WaitForPersonalAccessToken_def)
next
  case (Cons step rest)
  obtain cs r where step: "step = (cs, r)" by (cases step)
  show ?thesis
  proof (cases "waitOnResponseAccessToken rt a (deviceCode a) r")
    case (Inl e)
    with assms Cons step show ?thesis by (simp add: WaitForPersonalAccessToken_def)
  next
    case (Inr tok)
    let ?loop = "poll_loop rt (fold Cancel cs a) (interval a) tok rest"
    let ?q = "token_options rt a (deviceCode a)"
    obtain res tr where loop: "?loop = (res, tr)" by (cases ?loop)
    from loop_trace [of rt "fold Cancel cs a" "interval a" tok rest] loop
    have tr: "tr = concat (map (\<lambda>s. [Sleep s, Request ?q]) (sleeps tr))" by simp
    show ?thesis
    proof (cases res)
      case None
      with assms Cons step Inr loop tr show ?thesis
        by (simp add: WaitForPersonalAccessToken_def)
    next
      case (Some x)
      show ?thesis
      proof (cases x)
        case (Inl e)
        with assms Cons step Inr Some loop tr show ?thesis
          by (simp add: WaitForPersonalAccessToken_def)
      next
        case inr: (Inr y)
        obtain a' tok' where y: "y = (a', tok')" by (cases y)
        obtain res' tr' where after: "after_loop rt a' tok' r_user r_location r_token = (res', tr')"
          by (cases "after_loop rt a' tok' r_user r_location r_token")
        from after_loop_sleeps' [OF after] have s': "sleeps tr' = []" .
        from after_loop_no_poll [of rt a "deviceCode a" rt a' tok' r_user r_location r_token] after
        have p': "Request ?q \<notin> set tr'" by simp
        have "snd (WaitForPersonalAccessToken rt a steps r_user r_location r_token) = Request ?q # tr @ tr'"
          using assms Cons step Inr Some inr y loop after by (simp add: WaitForPersonalAccessToken_def)
        moreover from this s'
        have "sleeps (snd (WaitForPersonalAccessToken rt a steps r_user r_location r_token)) = sleeps tr"
          by simp
        ultimately show ?thesis using tr s' p' by auto
      qed
    qed
  qed
qed

lemma count_backoff_take_mono:
  "i \<le> j \<Longrightarrow> count_backoff (take i outs) \<le> count_backoff (take j outs)"
proof -
  assume "i \<le> j"
  then have "take j outs = take i outs @ take (j - i) (drop i outs)"
    by (metis le_add_diff_inverse take_add)
  then show ?thesis by (simp add: count_backoff_def)
qed

lemma count_backoff_take_Suc:
  "k < length outs \<Longrightarrow>
   count_backoff (take (Suc k) outs) = count_backoff (take k outs) + (if outs ! k = Inr BACKOFF then 1 else 0)"
  by (simp add: take_Suc_conv_app_nth count_backoff_def)

text \<open>
  C2. Take one call of \<open>WaitForPersonalAccessToken\<close> on an authenticator whose poll
  interval is 5000 ms, with any script of responses and cancellations. When the device
  code is set and the flow is not cancelled beforehand, the call sleeps once after every
  poll of the leading run of polls that are answered \<open>PENDING\<close> or \<open>BACKOFF\<close> with no
  \<open>Cancel\<close> call meanwhile, and at no other time; otherwise it never sleeps. The events of
  the call are the first poll, then every one of these sleeps followed at once by the next
  poll, then events that are neither sleeps nor polls: every poll but the first comes
  right after a sleep. The \<open>k\<close>-th sleep lasts 5000 ms times two to the
  number of \<open>BACKOFF\<close> outcomes among the first \<open>k + 1\<close> polls, which a double holds exactly
  up to 1011 doublings; from the next doubling on it is \<open>Infinity\<close>. So the first sleep is
  10000 ms after a \<open>BACKOFF\<close> and 5000 ms otherwise; each later sleep is twice the one
  before it after a \<open>BACKOFF\<close> and equal to it otherwise (after \<open>PENDING\<close>); and the sleeps
  never decrease.
\<close>

theorem C2_backoff_doubles_sleep:
  assumes "interval a = Num 5000"
  shows "let S = sleeps (snd (WaitForPersonalAccessToken rt a steps r_user r_location r_token));
             outcomes = poll_outcomes rt a steps;
             poll = token_options rt a (deviceCode a)
         in S = (if truthy (deviceCode a) \<and> \<not> cancelFlag a
                 then map (\<lambda>k. if count_backoff (take (Suc k) outcomes) \<le> 1011
                                then Num (5000 * 2 ^ count_backoff (take (Suc k) outcomes))
                                else PosInfinity)
                          [0..<length (takeWhile (undisturbed rt a) steps)]
                 else [])
          \<and> (truthy (deviceCode a) \<longrightarrow>
               (\<exists>tail. snd (WaitForPersonalAccessToken rt a steps r_user r_location r_token) =
                          Request poll # concat (map (\<lambda>s. [Sleep s, Request poll]) S) @ tail
                        \<and> sleeps tail = [] \<and> Request poll \<notin> set tail))
          \<and> (0 < length S \<longrightarrow> S ! 0 = (if outcomes ! 0 = Inr BACKOFF then Num 10000 else Num 5000))
          \<and> (\<forall>k. Suc k < length S \<longrightarrow>
                S ! Suc k = (if outcomes ! Suc k = Inr BACKOFF then jsnum_times (S ! k) (Num 2) else S ! k))
          \<and> (\<forall>i j. i \<le> j \<longrightarrow> j < length S \<longrightarrow> jsnum_le (S ! i) (S ! j))"
proof -
  let ?S = "sleeps (snd (WaitForPersonalAccessToken rt a steps r_user r_location r_token))"
  let ?O = "poll_outcomes rt a steps"
  let ?f = "\<lambda>y. jsnum_times y (Num 2)"
  let ?c = "\<lambda>k. count_backoff (take (Suc k) ?O)"
  let ?v = "\<lambda>k. if ?c k \<le> 1011 then Num (5000 * 2 ^ ?c k) else PosInfinity"
  have N: "length ?S = (if truthy (deviceCode a) \<and> \<not> cancelFlag a
                        then length (takeWhile (undisturbed rt a) steps) else 0)"
    by (rule wait_sleeps_count)
  have F: "?S ! k = (?f ^^ ?c k) (Num 5000)" if "k < length ?S" for k
    using wait_sleeps_nth [OF that] assms by simp
  have A: "?S ! k = ?v k" if "k < length ?S" for k
    using F [OF that] by (simp only: doublings_5000)
  have L: "k < length ?O" if "k < length ?S" for k
  proof -
    have "length (takeWhile (undisturbed rt a) steps) \<le> length steps"
      by (rule length_takeWhile_le)
    with that N show ?thesis by (simp add: poll_outcomes_def split: if_splits)
  qed
  have E: "?S = (if truthy (deviceCode a) \<and> \<not> cancelFlag a
                 then map ?v [0..<length (takeWhile (undisturbed rt a) steps)] else [])"
  proof (cases "truthy (deviceCode a) \<and> \<not> cancelFlag a")
    case False
    with N have "?S = []" by auto
    with False show ?thesis by auto
  next
    case True
    with N have len: "length ?S = length (takeWhile (undisturbed rt a) steps)" by simp
    have "?S = map ?v [0..<length (takeWhile (undisturbed rt a) steps)]"
    proof (rule nth_equalityI)
      show "length ?S = length (map ?v [0..<length (takeWhile (undisturbed rt a) steps)])"
        by (simp add: len)
    next
      fix k assume k: "k < length ?S"
      with len have "map ?v [0..<length (takeWhile (undisturbed rt a) steps)] ! k = ?v k"
        by simp
      with A [OF k] show "?S ! k = map ?v [0..<length (takeWhile (undisturbed rt a) steps)] ! k"
        by simp
    qed
    with True show ?thesis by simp
  qed
  have T: "truthy (deviceCode a) \<longrightarrow>
       (\<exists>tail. snd (WaitForPersonalAccessToken rt a steps r_user r_location r_token) =
                  Request (token_options rt a (deviceCode a))
                    # concat (map (\<lambda>s. [Sleep s, Request (token_options rt a (deviceCode a))]) ?S) @ tail
                \<and> sleeps tail = [] \<and> Request (token_options rt a (deviceCode a)) \<notin> set tail)"
    using wait_trace by blast
  have B: "?S ! 0 = (if ?O ! 0 = Inr BACKOFF then Num 10000 else Num 5000)" if "0 < length ?S"
  proof -
    from count_backoff_take_Suc [OF L [OF that]] A [OF that] show ?thesis by simp
  qed
  have C: "?S ! Suc k = (if ?O ! Suc k = Inr BACKOFF then jsnum_times (?S ! k) (Num 2) else ?S ! k)"
    if "Suc k < length ?S" for k
  proof -
    from that have k: "k < length ?S" by simp
    from count_backoff_take_Suc [OF L [OF that]] F [OF that] F [OF k]
    show ?thesis by simp
  qed
  have D: "jsnum_le (?S ! i) (?S ! j)" if "i \<le> j" "j < length ?S" for i j
  proof -
    from that have i: "i < length ?S" by simp
    from that(1) have m: "?c i \<le> ?c j"
      by (simp add: count_backoff_take_mono)
    then have "(5000::int) * 2 ^ ?c i \<le> 5000 * 2 ^ ?c j"
      by (simp add: power_increasing)
    with m A [OF i] A [OF that(2)] show ?thesis by auto
  qed
  from E T B C D show ?thesis unfolding Let_def by blast
qed

text \<open>
  The run whose polls are answered \<open>slow_down\<close>, \<open>slow_down\<close>, \<open>authorization_pending\<close>
  and then a token sleeps 10000, 20000 and 20000 ms.
\<close>

lemma example_outcomes [simp]:
  "waitOnResponseAccessToken example_runtime a dc pending_response = Inr PENDING"
  "waitOnResponseAccessToken example_runtime a dc slow_down_response = Inr BACKOFF"
  "waitOnResponseAccessToken example_runtime a dc expired_response = Inr EXPIRED"
  "waitOnResponseAccessToken example_runtime a dc token_response = Inr (JString ''tok'')"
  by (simp_all add: waitOnResponseAccessToken_def poll_fulfilled_def poll_rejected_def
      example_runtime_def example_parse_def pending_response_def slow_down_response_def
      expired_response_def token_response_def)

lemma example_authenticator_simps [simp]:
  "truthy (deviceCode example_authenticator)"
  "interval example_authenticator = Num 5000"
  "\<not> cancelFlag example_authenticator"
  "resourceUri example_authenticator = ''https://my-corporate-account.visualstudio.com/''"
  by (simp_all add: example_authenticator_def)

lemma waiting_simps [simp]:
  "waiting a PENDING = (\<not> cancelFlag a)"
  "waiting a BACKOFF = (\<not> cancelFlag a)"
  "\<not> waiting a EXPIRED"
  "\<not> waiting a (JString ''tok'')"
  "cancelFlag a \<Longrightarrow> \<not> waiting a tok"
  using status_distinct by (auto simp: waiting_def PENDING_def BACKOFF_def)

lemma example_undisturbed [simp]:
  "undisturbed example_runtime a ([], pending_response)"
  "undisturbed example_runtime a ([], slow_down_response)"
  "\<not> undisturbed example_runtime a (cs, token_response)"
  "\<not> undisturbed example_runtime a (cs, expired_response)"
  by (simp_all add: undisturbed_def PENDING_def BACKOFF_def EXPIRED_def)

theorem C2_backoff_doubles_sleep_witness:
  "interval example_authenticator = Num 5000
   \<and> poll_outcomes example_runtime example_authenticator
        [([], slow_down_response), ([], slow_down_response), ([], pending_response), ([], token_response)]
      = [Inr BACKOFF, Inr BACKOFF, Inr PENDING, Inr (JString ''tok'')]
   \<and> sleeps (snd (WaitForPersonalAccessToken example_runtime example_authenticator
        [([], slow_down_response), ([], slow_down_response), ([], pending_response), ([], token_response)]
        (Rejected RequestError) (Rejected RequestError) (Rejected RequestError)))
      = [Num 10000, Num 20000, Num 20000]"
proof -
  let ?steps = "[([], slow_down_response), ([], slow_down_response), ([], pending_response),
                 ([], token_response)] :: poll_step list"
  have i: "interval example_authenticator = Num 5000" by simp
  have O: "poll_outcomes example_runtime example_authenticator ?steps
             = [Inr BACKOFF, Inr BACKOFF, Inr PENDING, Inr (JString ''tok'')]"
    by (simp add: poll_outcomes_def)
  have n: "[0..<3] = [0, 1, 2]" by (simp add: upt_rec)
  note t = C2_backoff_doubles_sleep [OF i, of example_runtime ?steps
      "Rejected RequestError" "Rejected RequestError" "Rejected RequestError", unfolded Let_def O,
      THEN conjunct1]
  from t have "sleeps (snd (WaitForPersonalAccessToken example_runtime example_authenticator ?steps
        (Rejected RequestError) (Rejected RequestError) (Rejected RequestError)))
      = [Num 10000, Num 20000, Num 20000]"
    using status_distinct by (simp add: n count_backoff_def numeral_2_eq_2)
  with i O show ?thesis by blast
qed

subsection \<open>Cancelling\<close>

text \<open>
  Every request of the loop is the poll. When \<open>Cancel\<close> is first called while a poll
  is awaited (or during the sleep before it), that poll still settles and is the last.
\<close>

lemma loop_requests:
  "requests (snd (poll_loop rt a sl tok steps)) =
     replicate (length (requests (snd (poll_loop rt a sl tok steps)))) (token_options rt a (deviceCode a))"
proof (induction steps arbitrary: a sl tok)
  case Nil
  then show ?case by (simp add: poll_loop.simps)
next
  case (Cons step rest)
  obtain cs r where step: "step = (cs, r)" by (cases step)
  show ?case
  proof (cases "waiting a tok")
    case False
    then show ?thesis by (simp add: poll_loop_exit)
  next
    case True
    show ?thesis
    proof (cases "waitOnResponseAccessToken rt a (deviceCode a) r")
      case (Inl e)
      show ?thesis unfolding step poll_loop_failure [OF True Inl] by simp
    next
      case (Inr tok')
      show ?thesis unfolding step poll_loop_again [OF True Inr]
        using Cons.IH [of "fold Cancel cs a" "if tok = PENDING then sl else jsnum_times sl (Num 2)" tok']
        by simp
    qed
  qed
qed

lemma loop_until_cancel:
  assumes "\<not> cancelFlag a" and "tok = PENDING \<or> tok = BACKOFF"
    and "\<forall>s\<in>set pre. fst s = []
           \<and> (waitOnResponseAccessToken rt a (deviceCode a) (snd s) = Inr PENDING
              \<or> waitOnResponseAccessToken rt a (deviceCode a) (snd s) = Inr BACKOFF)"
    and "cs \<noteq> []"
  shows "fst (poll_loop rt a sl tok (pre @ (cs, r) # rest)) =
           (case waitOnResponseAccessToken rt a (deviceCode a) r of
              Inl e \<Rightarrow> Some (Inl e)
            | Inr tok' \<Rightarrow> Some (Inr (fold Cancel cs a, tok')))
         \<and> requests (snd (poll_loop rt a sl tok (pre @ (cs, r) # rest))) =
             replicate (Suc (length pre)) (token_options rt a (deviceCode a))"
  using assms(2,3)
proof (induction pre arbitrary: sl tok)
  case Nil
  from Nil.prems(1) assms(1) have w: "waiting a tok" by auto
  show ?case
  proof (cases "waitOnResponseAccessToken rt a (deviceCode a) r")
    case (Inl e)
    show ?thesis using poll_loop_failure [OF w Inl] by (simp add: Inl)
  next
    case (Inr tok')
    from assms(4) have "cancelFlag (fold Cancel cs a)" by (simp add: fold_Cancel)
    then have "\<not> waiting (fold Cancel cs a) tok'" by simp
    from poll_loop_exit [OF this] poll_loop_again [OF w Inr] show ?thesis
      by (simp add: Inr)
  qed
next
  case (Cons step pre)
  obtain c0 r0 where step: "step = (c0, r0)" by (cases step)
  from Cons.prems(1) assms(1) have w: "waiting a tok" by auto
  from Cons.prems(2) step have c0: "c0 = []" by simp
  from Cons.prems(2) step obtain tok0 where
    out: "waitOnResponseAccessToken rt a (deviceCode a) r0 = Inr tok0"
    and tok0: "tok0 = PENDING \<or> tok0 = BACKOFF"
    by auto
  from Cons.prems(2) have rest: "\<forall>s\<in>set pre. fst s = []
           \<and> (waitOnResponseAccessToken rt a (deviceCode a) (snd s) = Inr PENDING
              \<or> waitOnResponseAccessToken rt a (deviceCode a) (snd s) = Inr BACKOFF)"
    by simp
  from Cons.IH [OF tok0 rest] poll_loop_again [OF w out, of sl c0 "pre @ (cs, r) # rest"]
  show ?case by (simp add: step c0)
qed

lemma after_loop_cancelled:
  "cancelFlag a \<Longrightarrow>
   after_loop rt a tok r_user r_location r_token =
     (if tok = EXPIRED then
        Inl (Error (''Verification code expired for '' @ resourceUri a
                      @ ''. Could not get an access token.''))
      else if tok = BADCODE then
        Inl (Error (''Incorrect verification code entered for '' @ resourceUri a
                      @ ''. Could not get an access token.''))
      else if throwExceptionOnCancel a = Some True then Inl (Error ''Request canceled by user.'')
      else Inr JUndefined, [])"
  by (simp add: after_loop_def)

lemma wait_first_poll_fails:
  "truthy (deviceCode a) \<Longrightarrow> waitOnResponseAccessToken rt a (deviceCode a) r = Inl e \<Longrightarrow>
   WaitForPersonalAccessToken rt a ((cs, r) # rest) r_user r_location r_token =
     (Some (Inl e), [Request (token_options rt a (deviceCode a))])"
  by (simp add: WaitForPersonalAccessToken_def)

lemma wait_loop_fails:
  "truthy (deviceCode a) \<Longrightarrow> waitOnResponseAccessToken rt a (deviceCode a) r = Inr tok \<Longrightarrow>
   poll_loop rt (fold Cancel cs a) (interval a) tok rest = (Some (Inl e), tr) \<Longrightarrow>
   WaitForPersonalAccessToken rt a ((cs, r) # rest) r_user r_location r_token =
     (Some (Inl e), Request (token_options rt a (deviceCode a)) # tr)"
  by (simp add: WaitForPersonalAccessToken_def)

lemma wait_loop_exits:
  "truthy (deviceCode a) \<Longrightarrow> waitOnResponseAccessToken rt a (deviceCode a) r = Inr tok \<Longrightarrow>
   poll_loop rt (fold Cancel cs a) (interval a) tok rest = (Some (Inr (a', tok')), tr) \<Longrightarrow>
   WaitForPersonalAccessToken rt a ((cs, r) # rest) r_user r_location r_token =
     (Some (fst (after_loop rt a' tok' r_user r_location r_token)),
      Request (token_options rt a (deviceCode a)) # tr
        @ snd (after_loop rt a' tok' r_user r_location r_token))"
  by (simp add: WaitForPersonalAccessToken_def split: prod.splits)

text \<open>
  C3, as the code has it. Let the device code be set and the flow not cancelled, let
  the polls before be answered \<open>PENDING\<close> or \<open>BACKOFF\<close> with no \<open>Cancel\<close> call, and let
  \<open>Cancel\<close> be called (once or more, the last call counts) during the sleep before the next
  poll or while that poll is awaited. Then that poll is still made and awaited, it is the
  last request of the flow, and the later steps of the script are never reached. If it
  fails, the failure is thrown; if its outcome is \<open>EXPIRED\<close> or \<open>BADCODE\<close>, the error for
  that outcome is thrown whatever \<open>Cancel\<close> was given; otherwise (the outcome is \<open>PENDING\<close>,
  \<open>BACKOFF\<close> or a token) the call throws "Request canceled by user." when \<open>Cancel\<close> was
  given \<open>true\<close> and returns \<open>undefined\<close> without throwing when it was given \<open>false\<close> or
  nothing.
\<close>

theorem C3_cancel_between_polls:
  assumes "truthy (deviceCode a)" and "\<not> cancelFlag a"
    and "\<forall>s\<in>set pre. fst s = []
           \<and> (waitOnResponseAccessToken rt a (deviceCode a) (snd s) = Inr PENDING
              \<or> waitOnResponseAccessToken rt a (deviceCode a) (snd s) = Inr BACKOFF)"
    and "cs \<noteq> []"
  shows "fst (WaitForPersonalAccessToken rt a (pre @ (cs, r) # rest) r_user r_location r_token) =
           Some (case waitOnResponseAccessToken rt a (deviceCode a) r of
                   Inl e \<Rightarrow> Inl e
                 | Inr tok \<Rightarrow>
                     if tok = EXPIRED then
                       Inl (Error (''Verification code expired for '' @ resourceUri a
                                     @ ''. Could not get an access token.''))
                     else if tok = BADCODE then
                       Inl (Error (''Incorrect verification code entered for '' @ resourceUri a
                                     @ ''. Could not get an access token.''))
                     else if last cs = Some True then Inl (Error ''Request canceled by user.'')
                     else Inr JUndefined)
       \<and> requests (snd (WaitForPersonalAccessToken rt a (pre @ (cs, r) # rest) r_user r_location r_token)) =
           replicate (Suc (length pre)) (token_options rt a (deviceCode a))"
proof -
  let ?a' = "fold Cancel cs a"
  from assms(4) have flag: "cancelFlag ?a'" and throw: "throwExceptionOnCancel ?a' = last cs"
    and uri: "resourceUri ?a' = resourceUri a"
    by (simp_all add: fold_Cancel)
  show ?thesis
  proof (cases pre)
    case Nil
    show ?thesis
    proof (cases "waitOnResponseAccessToken rt a (deviceCode a) r")
      case (Inl e)
      from wait_first_poll_fails [OF assms(1) Inl] show ?thesis by (simp add: Nil Inl)
    next
      case (Inr tok)
      from flag have "poll_loop rt ?a' (interval a) tok rest = (Some (Inr (?a', tok)), [])"
        by (simp add: poll_loop_exit)
      from wait_loop_exits [OF assms(1) Inr this] show ?thesis
        by (simp add: Nil Inr after_loop_cancelled [OF flag] throw uri)
    qed
  next
    case (Cons step pre')
    obtain c0 r0 where step: "step = (c0, r0)" by (cases step)
    from assms(3) Cons step have c0: "c0 = []" by simp
    from assms(3) Cons step obtain tok0 where
      out: "waitOnResponseAccessToken rt a (deviceCode a) r0 = Inr tok0"
      and tok0: "tok0 = PENDING \<or> tok0 = BACKOFF"
      by auto
    from assms(3) Cons have rest: "\<forall>s\<in>set pre'. fst s = []
           \<and> (waitOnResponseAccessToken rt a (deviceCode a) (snd s) = Inr PENDING
              \<or> waitOnResponseAccessToken rt a (deviceCode a) (snd s) = Inr BACKOFF)"
      by simp
    let ?loop = "poll_loop rt a (interval a) tok0 (pre' @ (cs, r) # rest)"
    note loop = loop_until_cancel [OF assms(2) tok0 rest assms(4), of "interval a" r rest]
    show ?thesis
    proof (cases "waitOnResponseAccessToken rt a (deviceCode a) r")
      case (Inl e)
      with loop have "?loop = (Some (Inl e), snd ?loop)"
        by (metis prod.collapse sum.simps(5))
      then have "poll_loop rt (fold Cancel c0 a) (interval a) tok0 (pre' @ (cs, r) # rest)
                   = (Some (Inl e), snd ?loop)"
        by (simp add: c0)
      from wait_loop_fails [OF assms(1) out this] loop show ?thesis
        by (simp add: Cons step Inl)
    next
      case (Inr tok)
      with loop have "?loop = (Some (Inr (?a', tok)), snd ?loop)"
        by (metis prod.collapse sum.simps(6))
      then have "poll_loop rt (fold Cancel c0 a) (interval a) tok0 (pre' @ (cs, r) # rest)
                   = (Some (Inr (?a', tok)), snd ?loop)"
        by (simp add: c0)
      from wait_loop_exits [OF assms(1) out this] loop show ?thesis
        by (simp add: Cons step Inr after_loop_cancelled [OF flag] throw uri)
    qed
  qed
qed

text \<open>
  After one \<open>PENDING\<close>, \<open>Cancel(false)\<close> and \<open>Cancel(true)\<close> during the second poll: two
  polls are made, and the token the script holds for a third is never asked for.
\<close>

theorem C3_cancel_between_polls_witness:
  "fst (WaitForPersonalAccessToken example_runtime example_authenticator
          [([], pending_response), ([Some False], pending_response), ([], token_response)]
          (Rejected RequestError) (Rejected RequestError) (Rejected RequestError))
     = Some (Inr JUndefined)
   \<and> fst (WaitForPersonalAccessToken example_runtime example_authenticator
          [([], pending_response), ([Some True], pending_response), ([], token_response)]
          (Rejected RequestError) (Rejected RequestError) (Rejected RequestError))
     = Some (Inl (Error ''Request canceled by user.''))
   \<and> requests (snd (WaitForPersonalAccessToken example_runtime example_authenticator
          [([], pending_response), ([Some False], pending_response), ([], token_response)]
          (Rejected RequestError) (Rejected RequestError) (Rejected RequestError)))
     = [token_options example_runtime example_authenticator (deviceCode example_authenticator),
        token_options example_runtime example_authenticator (deviceCode example_authenticator)]"
proof -
  have pre: "\<forall>s\<in>set [([], pending_response) :: poll_step]. fst s = []
      \<and> (waitOnResponseAccessToken example_runtime example_authenticator
            (deviceCode example_authenticator) (snd s) = Inr PENDING
         \<or> waitOnResponseAccessToken example_runtime example_authenticator
            (deviceCode example_authenticator) (snd s) = Inr BACKOFF)"
    by simp
  note t = C3_cancel_between_polls [where rt = example_runtime and a = example_authenticator
      and pre = "[([], pending_response)]" and r = pending_response
      and rest = "[([], token_response)]" and r_user = "Rejected RequestError"
      and r_location = "Rejected RequestError" and r_token = "Rejected RequestError", OF _ _ pre]
  from t [of "[Some False]"] t [of "[Some True]"] show ?thesis
    using status_distinct by (simp add: numeral_2_eq_2)
qed

text \<open>
  C3 as stated fails where the poll that is in flight when \<open>Cancel(false)\<close> is called
  reports \<open>code_expired\<close>: the loop condition sees the flag and the loop ends, and the call
  throws "Verification code expired ..." instead of returning \<open>undefined\<close>.
\<close>

theorem C3_expired_beats_cancel_counterexample:
  "cancelFlag (Cancel (Some False) example_authenticator)
   \<and> throwExceptionOnCancel (Cancel (Some False) example_authenticator) = Some False
   \<and> fst (WaitForPersonalAccessToken example_runtime example_authenticator
          [([Some False], expired_response)]
          (Rejected RequestError) (Rejected RequestError) (Rejected RequestError))
     = Some (Inl (Error (''Verification code expired for ''
          @ ''https://my-corporate-account.visualstudio.com/''
          @ ''. Could not get an access token.'')))"
  by (simp add: WaitForPersonalAccessToken_def poll_loop_exit after_loop_def Cancel_def)

text \<open>
  The authenticator the loop ends with is the one it started with after some \<open>Cancel\<close>
  calls.
\<close>

lemma loop_exit_state:
  "poll_loop rt a sl tok steps = (Some (Inr (a', tok')), tr) \<Longrightarrow> \<exists>cs. a' = fold Cancel cs a"
proof (induction steps arbitrary: a sl tok tr)
  case Nil
  then have "a' = fold Cancel [] a" by (simp add: poll_loop.simps split: if_splits)
  then show ?case by blast
next
  case (Cons step rest)
  obtain cs r where step: "step = (cs, r)" by (cases step)
  show ?case
  proof (cases "waiting a tok")
    case False
    with Cons.prems have "a' = fold Cancel [] a" by (simp add: poll_loop_exit)
    then show ?thesis by blast
  next
    case True
    show ?thesis
    proof (cases "waitOnResponseAccessToken rt a (deviceCode a) r")
      case (Inl e)
      with Cons.prems True step show ?thesis by (simp add: poll_loop_failure)
    next
      case (Inr tok1)
      let ?sl = "if tok = PENDING then sl else jsnum_times sl (Num 2)"
      from Cons.prems step poll_loop_again [OF True Inr, of sl cs rest]
      have "poll_loop rt (fold Cancel cs a) ?sl tok1 rest
              = (Some (Inr (a', tok')), snd (poll_loop rt (fold Cancel cs a) ?sl tok1 rest))"
        by (metis fst_conv prod.collapse)
      from Cons.IH [OF this] obtain cs' where "a' = fold Cancel cs' (fold Cancel cs a)" by blast
      then have "a' = fold Cancel (cs @ cs') a" by simp
      then show ?thesis by blast
    qed
  qed
qed

lemma loop_exit_resourceUri:
  "poll_loop rt a sl tok steps = (Some (Inr (a', tok')), tr) \<Longrightarrow> resourceUri a' = resourceUri a"
  using loop_exit_state [of rt a sl tok steps a' tok' tr] by (auto simp: fold_Cancel)

text \<open>
  C10, as the code has it. Take any run in which the loop ends with the cancellation
  flag set. Then nothing follows the loop: every request of the run is a poll, so neither
  the identity lookup nor the location lookup nor the request that creates the token is
  made, whatever they would have answered. The outcome of the last poll decides the
  result. If it is \<open>EXPIRED\<close> the call throws "Verification code expired ...", if it is
  \<open>BADCODE\<close> the call throws "Incorrect verification code entered ...", both whatever
  \<open>Cancel\<close> was given. Otherwise, in particular when it is an access token, the token is
  dropped: the call throws "Request canceled by user." if the last \<open>Cancel\<close> was given
  \<open>true\<close>, and returns \<open>undefined\<close> otherwise.
\<close>

theorem C10_cancel_discards_token:
  assumes "truthy (deviceCode a)"
    and "waitOnResponseAccessToken rt a (deviceCode a) r = Inr tok_first"
    and "poll_loop rt (fold Cancel cs a) (interval a) tok_first rest = (Some (Inr (a', tok)), tr)"
    and "cancelFlag a'"
  shows "snd (WaitForPersonalAccessToken rt a ((cs, r) # rest) r_user r_location r_token) =
           Request (token_options rt a (deviceCode a)) # tr
       \<and> requests (snd (WaitForPersonalAccessToken rt a ((cs, r) # rest) r_user r_location r_token)) =
           replicate (length (requests (snd (WaitForPersonalAccessToken rt a ((cs, r) # rest)
                                               r_user r_location r_token))))
             (token_options rt a (deviceCode a))
       \<and> fst (WaitForPersonalAccessToken rt a ((cs, r) # rest) r_user r_location r_token) =
           Some (if tok = EXPIRED then
                   Inl (Error (''Verification code expired for '' @ resourceUri a
                                 @ ''. Could not get an access token.''))
                 else if tok = BADCODE then
                   Inl (Error (''Incorrect verification code entered for '' @ resourceUri a
                                 @ ''. Could not get an access token.''))
                 else if throwExceptionOnCancel a' = Some True
                 then Inl (Error ''Request canceled by user.'')
                 else Inr JUndefined)"
proof -
  note w = wait_loop_exits [OF assms(1,2,3), of r_user r_location r_token]
  from loop_requests [of rt "fold Cancel cs a" "interval a" tok_first rest] assms(3)
  have "requests tr = replicate (length (requests tr)) (token_options rt a (deviceCode a))"
    by simp
  moreover from loop_exit_resourceUri [OF assms(3)] have "resourceUri a' = resourceUri a"
    by (simp add: fold_Cancel)
  ultimately show ?thesis using w
    by (simp add: after_loop_cancelled [OF assms(4)])
qed

text \<open>
  \<open>Cancel\<close> is called while the second poll is awaited, and that poll brings the token.
\<close>

theorem C10_cancel_discards_token_witness:
  "WaitForPersonalAccessToken example_runtime example_authenticator
      [([], pending_response), ([Some False], token_response)]
      (Rejected RequestError) (Rejected RequestError) (Rejected RequestError)
     = (Some (Inr JUndefined),
        [Request (token_options example_runtime example_authenticator (deviceCode example_authenticator)),
         Sleep (Num 5000),
         Request (token_options example_runtime example_authenticator (deviceCode example_authenticator))])
   \<and> fst (WaitForPersonalAccessToken example_runtime example_authenticator
      [([], pending_response), ([Some True], token_response)]
      (Rejected RequestError) (Rejected RequestError) (Rejected RequestError))
     = Some (Inl (Error ''Request canceled by user.''))"
proof -
  let ?q = "token_options example_runtime example_authenticator (deviceCode example_authenticator)"
  have loop: "poll_loop example_runtime (fold Cancel [] example_authenticator)
                (interval example_authenticator) PENDING [([c], token_response)]
              = (Some (Inr (Cancel c example_authenticator, JString ''tok'')), [Sleep (Num 5000), Request ?q])" for c
    by (simp add: poll_loop_again poll_loop_exit Cancel_def)
  have flag: "cancelFlag (Cancel c example_authenticator)" for c
    by (simp add: Cancel_def)
  have tok: "JString ''tok'' \<noteq> EXPIRED" "JString ''tok'' \<noteq> BADCODE"
    by (simp_all add: EXPIRED_def BADCODE_def)
  note t = C10_cancel_discards_token [where rt = example_runtime and a = example_authenticator
      and r = pending_response and tok_first = PENDING and cs = "[]" and tok = "JString ''tok''"
      and r_user = "Rejected RequestError"
      and r_location = "Rejected RequestError" and r_token = "Rejected RequestError",
      OF _ _ loop flag]
  have f: "fst (WaitForPersonalAccessToken example_runtime example_authenticator
      [([], pending_response), ([Some False], token_response)]
      (Rejected RequestError) (Rejected RequestError) (Rejected RequestError)) = Some (Inr JUndefined)"
    using t [of "Some False"] tok by (simp add: Cancel_def)
  have s: "snd (WaitForPersonalAccessToken example_runtime example_authenticator
      [([], pending_response), ([Some False], token_response)]
      (Rejected RequestError) (Rejected RequestError) (Rejected RequestError))
       = [Request ?q, Sleep (Num 5000), Request ?q]"
    using t [of "Some False"] by simp
  have g: "fst (WaitForPersonalAccessToken example_runtime example_authenticator
      [([], pending_response), ([Some True], token_response)]
      (Rejected RequestError) (Rejected RequestError) (Rejected RequestError))
     = Some (Inl (Error ''Request canceled by user.''))"
    using t [of "Some True"] tok by (simp add: Cancel_def)
  from f s g show ?thesis by (metis prod.collapse)
qed

text \<open>
  C10 as stated fails where the last poll reports \<open>code_expired\<close>: after one
  \<open>PENDING\<close>, \<open>Cancel(false)\<close> is called while the second poll is awaited, the loop ends
  with the flag set, and the call throws "Verification code expired ..." where cancellation
  would return \<open>undefined\<close>.
\<close>

theorem C10_expired_after_cancel_counterexample:
  "poll_loop example_runtime example_authenticator (interval example_authenticator) PENDING
      [([Some False], expired_response)]
     = (Some (Inr (Cancel (Some False) example_authenticator, EXPIRED)),
        [Sleep (Num 5000),
         Request (token_options example_runtime example_authenticator (deviceCode example_authenticator))])
   \<and> cancelFlag (Cancel (Some False) example_authenticator)
   \<and> fst (WaitForPersonalAccessToken example_runtime example_authenticator
          [([], pending_response), ([Some False], expired_response)]
          (Rejected RequestError) (Rejected RequestError) (Rejected RequestError))
     = Some (Inl (Error (''Verification code expired for ''
          @ ''https://my-corporate-account.visualstudio.com/''
          @ ''. Could not get an access token.'')))"
  by (simp add: WaitForPersonalAccessToken_def poll_loop_again poll_loop_exit after_loop_def Cancel_def)

subsection \<open>The user agent on the requests of a run\<close>

text \<open>
  The requests after the loop are built from the user agent the loop started with. Every request
  of \<open>WaitForPersonalAccessToken\<close> carries it, and so does the second request of
  \<open>GetDeviceFlowDetails\<close>: the tenant probe is the one request without it.
\<close>

lemma userAgent_fold_Cancel [simp]: "userAgent (fold Cancel cs a) = userAgent a"
  by (simp add: fold_Cancel)

lemma after_loop_user_agent:
  "q \<in> set (requests (snd (after_loop rt a tok r_user r_location r_token))) \<Longrightarrow>
   sent_header q ''User-Agent'' = Some (userAgent a)"
  by (auto simp: after_loop_def getScopedCompactAccessToken_def other_requests_user_agent
      split: if_splits sum.splits prod.splits)

lemma loop_user_agent:
  "q \<in> set (requests (snd (poll_loop rt a sl tok steps))) \<Longrightarrow>
   sent_header q ''User-Agent'' = Some (userAgent a)"
proof -
  assume "q \<in> set (requests (snd (poll_loop rt a sl tok steps)))"
  with loop_requests [of rt a sl tok steps] have "q = token_options rt a (deviceCode a)"
    by (metis in_set_replicate)
  then show ?thesis by (simp add: other_requests_user_agent)
qed

lemma wait_user_agent:
  assumes "q \<in> set (requests (snd (WaitForPersonalAccessToken rt a steps r_user r_location r_token)))"
  shows "sent_header q ''User-Agent'' = Some (userAgent a)"
proof (cases "truthy (deviceCode a)")
  case False
  with assms show ?thesis by (simp add: WaitForPersonalAccessToken_def)
next
  case True
  show ?thesis
  proof (cases steps)
    case Nil
    with assms True show ?thesis
      by (simp add: WaitForPersonalAccessToken_def other_requests_user_agent)
  next
    case (Cons step rest)
    obtain cs r where step: "step = (cs, r)" by (cases step)
    show ?thesis
    proof (cases "waitOnResponseAccessToken rt a (deviceCode a) r")
      case (Inl e)
      with assms True Cons step show ?thesis
        by (simp add: wait_first_poll_fails other_requests_user_agent)
    next
      case (Inr tok)
      let ?loop = "poll_loop rt (fold Cancel cs a) (interval a) tok rest"
      have L: "q' \<in> set (requests (snd ?loop)) \<Longrightarrow> sent_header q' ''User-Agent'' = Some (userAgent a)" for q'
        using loop_user_agent [of q' rt "fold Cancel cs a" "interval a" tok rest] by simp
      obtain res tr where loop: "?loop = (res, tr)" by (cases ?loop)
      show ?thesis
      proof (cases res)
        case None
        with assms True Cons step Inr loop L show ?thesis
          by (auto simp: WaitForPersonalAccessToken_def other_requests_user_agent)
      next
        case (Some x)
        show ?thesis
        proof (cases x)
          case (Inl e)
          with Some loop have "?loop = (Some (Inl e), tr)" by simp
          from wait_loop_fails [OF True Inr this] assms Cons step L loop show ?thesis
            by (auto simp: other_requests_user_agent)
        next
          case (Inr y)
          obtain a' tok' where y: "y = (a', tok')" by (cases y)
          with Some Inr loop have ex: "?loop = (Some (Inr (a', tok')), tr)" by simp
          from loop_exit_state [OF ex] have ua: "userAgent a' = userAgent a" by auto
          from wait_loop_exits [OF True \<open>waitOnResponseAccessToken rt a (deviceCode a) r = Inr tok\<close> ex]
            assms Cons step L loop ua
            after_loop_user_agent [of q rt a' tok' r_user r_location r_token]
          show ?thesis
            by (auto simp: other_requests_user_agent)
        qed
      qed
    qed
  qed
qed

lemma details_second_request_user_agent:
  "snd (snd (GetDeviceFlowDetails rt a r_head r_post)) = [p, Request q] \<Longrightarrow>
   sent_header q ''User-Agent'' = Some (userAgent a)"
  by (auto simp: GetDeviceFlowDetails_def Let_def other_requests_user_agent sent_header_def
      devicecode_options_def getUserAgentHeaders_def
      split: sum.splits http_result.splits option.splits)

end
